theory Spec2Isabelle
  imports Main "HOL-Library.Sublist"
begin

section \<open>Role constants and helpers (auth/roles.ts)\<close>

text \<open>
  Role ids are JavaScript numbers; the table holds the integers 1 to 4 and the helpers only
  compare them, so they are modelled as \<open>int\<close>. Role names are strings.
\<close>

definition Roles_USER :: int where "Roles_USER = 1"
definition Roles_EMPLOYEE :: int where "Roles_EMPLOYEE = 2"
definition Roles_MANAGER :: int where "Roles_MANAGER = 3"
definition Roles_ADMIN :: int where "Roles_ADMIN = 4"

text \<open>\<open>RoleIdToName[roleId]\<close>: the keys of the object are the four ids; any other number
  reads \<open>undefined\<close> (\<open>None\<close>).\<close>

definition RoleIdToName :: "int \<Rightarrow> string option" where
  "RoleIdToName roleId =
     (if roleId = Roles_USER then Some ''USER''
      else if roleId = Roles_EMPLOYEE then Some ''EMPLOYEE''
      else if roleId = Roles_MANAGER then Some ''MANAGER''
      else if roleId = Roles_ADMIN then Some ''ADMIN''
      else None)"

text \<open>
  \<open>RoleNameToId[name]\<close> is a property read on a plain object literal. Its own properties
  are the four role names. A name that is a member of \<open>Object.prototype\<close> reads that
  inherited member (a function or an object) instead of \<open>undefined\<close>; such a value is
  kept by the \<open>id !== undefined\<close> filter and then compared with a number.
\<close>

datatype jsval = Num int | Inherited

definition objectPrototypeKeys :: "string list" where
  "objectPrototypeKeys =
     [''constructor'', ''__proto__'', ''hasOwnProperty'', ''isPrototypeOf'',
      ''propertyIsEnumerable'', ''toLocaleString'', ''toString'', ''valueOf'',
      ''__defineGetter__'', ''__defineSetter__'', ''__lookupGetter__'', ''__lookupSetter__'']"

definition RoleNameToId :: "string \<Rightarrow> jsval option" where
  "RoleNameToId name =
     (if name = ''USER'' then Some (Num Roles_USER)
      else if name = ''EMPLOYEE'' then Some (Num Roles_EMPLOYEE)
      else if name = ''MANAGER'' then Some (Num Roles_MANAGER)
      else if name = ''ADMIN'' then Some (Num Roles_ADMIN)
      else if name \<in> set objectPrototypeKeys then Some Inherited
      else None)"

text \<open>\<open>id >= minRoleId\<close>: an inherited member converts to \<open>NaN\<close>, and every comparison
  with \<open>NaN\<close> is false.\<close>

fun js_ge :: "jsval option \<Rightarrow> int \<Rightarrow> bool" where
  "js_ge (Some (Num n)) m = (n \<ge> m)"
| "js_ge (Some Inherited) m = False"
| "js_ge None m = False"

definition hasRole :: "string list \<Rightarrow> int \<Rightarrow> bool" where
  "hasRole userRoles roleId =
     (case RoleIdToName roleId of
        None \<Rightarrow> False
      | Some roleName \<Rightarrow> roleName \<in> set userRoles)"

definition hasAnyRole :: "string list \<Rightarrow> int list \<Rightarrow> bool" where
  "hasAnyRole userRoles roleIds = list_ex (\<lambda>roleId. hasRole userRoles roleId) roleIds"

definition hasMinRole :: "string list \<Rightarrow> int \<Rightarrow> bool" where
  "hasMinRole userRoles minRoleId =
     (let userRoleIds = filter (\<lambda>id. id \<noteq> None) (map RoleNameToId userRoles)
      in list_ex (\<lambda>id. js_ge id minRoleId) userRoleIds)"

definition isAtLeastEmployee :: "string list \<Rightarrow> bool" where
  "isAtLeastEmployee userRoles = hasMinRole userRoles Roles_EMPLOYEE"

definition isAtLeastManager :: "string list \<Rightarrow> bool" where
  "isAtLeastManager userRoles = hasMinRole userRoles Roles_MANAGER"

definition isAdmin :: "string list \<Rightarrow> bool" where
  "isAdmin userRoles = hasRole userRoles Roles_ADMIN"

text \<open>The recognized role names are the own keys of \<open>RoleNameToId\<close>.\<close>

definition recognized :: "string \<Rightarrow> bool" where
  "recognized name = (name \<in> set [''USER'', ''EMPLOYEE'', ''MANAGER'', ''ADMIN''])"


section \<open>Ticket mutations (api/mutations.ts)\<close>

text \<open>
  JavaScript strings are sequences of UTF-16 code units. Identifiers, URLs and status names
  are ASCII and are kept as \<open>string\<close>; a free-text note is kept as its list of code
  units, because \<open>trim\<close> and \<open>length\<close> are defined on code units.
\<close>

type_synonym utf16 = "nat list"

datatype json = JString string | JText utf16 | JNumber int

text \<open>
  A request handed to the axios client: HTTP verb, URL and JSON body. The body is an object
  literal, kept as the list of its fields in the order they are written.
\<close>

datatype http_method = GET | POST | PATCH | DELETE

record request =
  verb :: http_method
  url :: string
  body :: "(string \<times> json) list"

text \<open>\<open>assignTicket(id, assignedTo?)\<close>: the optional parameter is \<open>undefined\<close> (\<open>None\<close>)
  when omitted. \<open>if (assignedTo)\<close> is JavaScript truthiness: \<open>undefined\<close> and the empty
  string are both falsy.\<close>

definition truthy_str :: "string option \<Rightarrow> bool" where
  "truthy_str s = (case s of None \<Rightarrow> False | Some t \<Rightarrow> t \<noteq> [])"

definition assignTicket :: "string \<Rightarrow> string option \<Rightarrow> request" where
  "assignTicket ident assignedTo =
     (let data = [];
          data = (if truthy_str assignedTo
                  then data @ [(''assigned_to'', JString (the assignedTo))] else data)
      in \<lparr> verb = POST, url = ''/api/tickets/'' @ ident @ ''/assign/'', body = data \<rparr>)"

definition updateTicketStatus :: "string \<Rightarrow> string \<Rightarrow> utf16 \<Rightarrow> request" where
  "updateTicketStatus ident status note =
     \<lparr> verb = PATCH, url = ''/api/tickets/'' @ ident @ ''/status/'',
       body = [(''status'', JString status), (''note'', JText note)] \<rparr>"





section \<open>Mutation forms (components/common/MutationForm.tsx, components/tickets/TicketActions.tsx)\<close>

text \<open>
  \<open>String.prototype.trim\<close> removes ECMAScript white space and line terminators from both
  ends: TAB, LF, VT, FF, CR, SP, NBSP, U+1680, U+2000 to U+200A, LS, PS, U+202F, U+205F,
  U+3000 and the byte order mark U+FEFF.
\<close>

definition isWhiteSpace :: "nat \<Rightarrow> bool" where
  "isWhiteSpace c =
     (c \<in> set [9, 10, 11, 12, 13, 32, 160, 5760, 8192, 8193, 8194, 8195, 8196, 8197, 8198,
               8199, 8200, 8201, 8202, 8232, 8233, 8239, 8287, 12288, 65279])"

definition trim :: "utf16 \<Rightarrow> utf16" where
  "trim s = rev (dropWhile isWhiteSpace (rev (dropWhile isWhiteSpace s)))"


text \<open>
  \<open>MutationForm\<close>: nothing is rendered unless \<open>isOpen\<close>; the submit handler calls
  \<open>onSubmit\<close> only when \<open>isValid && !isSubmitting\<close>. The handler of each form issues one
  request; \<open>None\<close> is "no request issued".
\<close>

definition MutationForm_handleSubmit :: "bool \<Rightarrow> bool \<Rightarrow> bool \<Rightarrow> 'a \<Rightarrow> 'a option" where
  "MutationForm_handleSubmit isOpen isValid isSubmitting onSubmit =
     (if \<not> isOpen then None
      else if isValid \<and> \<not> isSubmitting then Some onSubmit
      else None)"

text \<open>The four forms that carry a note, each with its own \<open>isValid\<close>.\<close>

definition UpdateStatus_isValid :: "utf16 \<Rightarrow> bool" where
  "UpdateStatus_isValid note = (length (trim note) > 0)"




definition UpdateStatus_submit :: "bool \<Rightarrow> bool \<Rightarrow> string \<Rightarrow> string \<Rightarrow> utf16 \<Rightarrow> request option" where
  "UpdateStatus_submit isOpen isSubmitting ident status note =
     MutationForm_handleSubmit isOpen (UpdateStatus_isValid note) isSubmitting
       (updateTicketStatus ident status note)"





section \<open>Ticket actions (components/tickets/TicketActions.tsx)\<close>

record user_ref =
  ref_id :: string

record ticket_detail =
  ticket_id :: string
  ticket_status :: string
  is_closed :: bool
  ticket_priority :: "int option"
  assigned_to :: "user_ref option"

record user =
  user_id :: string
  user_roles :: "string list"

text \<open>\<open>useAuth\<close>: \<open>roles = context.user?.roles ?? []\<close>, \<open>isEmployee = isAtLeastEmployee(roles)\<close>,
  \<open>isManager = isAtLeastManager(roles)\<close>.\<close>

definition auth_roles :: "user option \<Rightarrow> string list" where
  "auth_roles u = (case u of None \<Rightarrow> [] | Some v \<Rightarrow> user_roles v)"

definition isEmployee :: "user option \<Rightarrow> bool" where
  "isEmployee u = isAtLeastEmployee (auth_roles u)"

definition isManager :: "user option \<Rightarrow> bool" where
  "isManager u = isAtLeastManager (auth_roles u)"

text \<open>\<open>ticket.assigned_to?.id === user?.id\<close>: either side is \<open>undefined\<close> when the object is
  missing, and \<open>undefined === undefined\<close> holds.\<close>

definition isAssignedToMe :: "user option \<Rightarrow> ticket_detail \<Rightarrow> bool" where
  "isAssignedToMe u t = (map_option ref_id (assigned_to t) = map_option user_id u)"

definition canSelfAssign :: "user option \<Rightarrow> ticket_detail \<Rightarrow> bool" where
  "canSelfAssign u t = (isEmployee u \<and> assigned_to t = None \<and> \<not> is_closed t)"

definition canUpdateStatus :: "user option \<Rightarrow> ticket_detail \<Rightarrow> bool" where
  "canUpdateStatus u t = (isEmployee u \<and> isAssignedToMe u t \<and> \<not> is_closed t)"

definition canClose :: "user option \<Rightarrow> ticket_detail \<Rightarrow> bool" where
  "canClose u t = (isEmployee u \<and> isAssignedToMe u t \<and> \<not> is_closed t)"

definition canUpdatePriority :: "user option \<Rightarrow> ticket_detail \<Rightarrow> bool" where
  "canUpdatePriority u t = (isEmployee u \<and> (isAssignedToMe u t \<or> isManager u) \<and> \<not> is_closed t)"

definition canUploadAttachment :: "user option \<Rightarrow> ticket_detail \<Rightarrow> bool" where
  "canUploadAttachment u t = (isEmployee u \<and> \<not> is_closed t)"

definition canReassign :: "user option \<Rightarrow> ticket_detail \<Rightarrow> bool" where
  "canReassign u t = (isManager u \<and> assigned_to t \<noteq> None \<and> \<not> is_closed t)"

text \<open>The buttons the component renders, in render order; \<open>None\<close> is the \<open>return null\<close>
  taken when no action is available.\<close>

datatype action_button =
  AssignToMeButton | UpdateStatusButton | UploadAttachmentButton
  | UpdatePriorityButton | ReassignButton | CloseTicketButton

definition TicketActions :: "user option \<Rightarrow> ticket_detail \<Rightarrow> action_button list option" where
  "TicketActions u t =
     (if \<not> canSelfAssign u t \<and> \<not> canUpdateStatus u t \<and> \<not> canClose u t
         \<and> \<not> canUpdatePriority u t \<and> \<not> canUploadAttachment u t \<and> \<not> canReassign u t
      then None
      else Some
        ((if canSelfAssign u t then [AssignToMeButton] else [])
         @ (if canUpdateStatus u t then [UpdateStatusButton] else [])
         @ (if canUploadAttachment u t then [UploadAttachmentButton] else [])
         @ (if canUpdatePriority u t then [UpdatePriorityButton] else [])
         @ (if canReassign u t then [ReassignButton] else [])
         @ (if canClose u t then [CloseTicketButton] else [])))"

subsection \<open>The status-update form\<close>

definition UPDATABLE_STATUSES :: "string list" where
  "UPDATABLE_STATUSES = [''In Progress'', ''Waiting'', ''On Hold'', ''Assigned'']"

definition TICKET_STATUSES :: "string list" where
  "TICKET_STATUSES = [''New'', ''Assigned'', ''In Progress'', ''Waiting'', ''On Hold'', ''Closed'']"

definition availableStatuses :: "ticket_detail \<Rightarrow> string list" where
  "availableStatuses t = filter (\<lambda>s. s \<noteq> ticket_status t) UPDATABLE_STATUSES"

text \<open>
  The state of \<open>UpdateStatusButton\<close>: the form hook's \<open>isOpen\<close> and \<open>isSubmitting\<close>, the
  selected status (initially \<open>'In Progress'\<close>) and the note. The ticket is the prop of one
  rendering and stays fixed while the form is used.
\<close>

record status_form =
  form_isOpen :: bool
  form_isSubmitting :: bool
  form_status :: string
  form_note :: utf16

definition status_form_init :: status_form where
  "status_form_init =
     \<lparr> form_isOpen = False, form_isSubmitting = False, form_status = ''In Progress'',
       form_note = [] \<rparr>"

text \<open>
  What the user can do in the component: press the button (\<open>handleOpen\<close>), pick one of
  the rendered options of the select, edit the note, submit, cancel; and the pending request
  completes or fails. The select renders exactly the \<open>availableStatuses\<close> and is disabled
  while submitting.
\<close>

datatype form_event =
  HandleOpen | SelectStatus string | SetNote utf16 | Submit | Cancel | RequestDone bool

definition handleOpen :: "ticket_detail \<Rightarrow> status_form \<Rightarrow> status_form" where
  "handleOpen t f =
     f \<lparr> form_note := [],
         form_status := (case availableStatuses t of
                           [] \<Rightarrow> ''In Progress''
                         | s # _ \<Rightarrow> if s = [] then ''In Progress'' else s),
         form_isOpen := True \<rparr>"

definition form_close :: "status_form \<Rightarrow> status_form" where
  "form_close f = (if \<not> form_isSubmitting f then f \<lparr> form_isOpen := False \<rparr> else f)"

fun form_handle :: "ticket_detail \<Rightarrow> status_form \<Rightarrow> form_event \<Rightarrow> status_form \<times> request option" where
  "form_handle t f HandleOpen = (handleOpen t f, None)"
| "form_handle t f (SelectStatus s) =
     (if form_isOpen f \<and> \<not> form_isSubmitting f \<and> s \<in> set (availableStatuses t)
      then f \<lparr> form_status := s \<rparr> else f, None)"
| "form_handle t f (SetNote n) = (if form_isOpen f then f \<lparr> form_note := n \<rparr> else f, None)"
| "form_handle t f Submit =
     (case UpdateStatus_submit (form_isOpen f) (form_isSubmitting f) (ticket_id t)
             (form_status f) (form_note f) of
        None \<Rightarrow> (f, None)
      | Some r \<Rightarrow> (f \<lparr> form_isSubmitting := True \<rparr>, Some r))"
| "form_handle t f Cancel = (form_close f, None)"
| "form_handle t f (RequestDone ok) =
     (if form_isSubmitting f
      then (if ok then (form_close (f \<lparr> form_isSubmitting := False \<rparr>)) \<lparr> form_note := [] \<rparr>
            else f \<lparr> form_isSubmitting := False \<rparr>)
      else f, None)"

text \<open>
  \<open>TicketActions\<close> renders the component only under \<open>canUpdateStatus\<close>
  (\<open>{canUpdateStatus && <UpdateStatusButton ... />}\<close>): for any other user or ticket there is
  no button and no form, so no event of the form can happen and nothing is issued.
\<close>

definition form_step :: "user option \<Rightarrow> ticket_detail \<Rightarrow> status_form \<Rightarrow> form_event
    \<Rightarrow> status_form \<times> request option" where
  "form_step u t f e = (if canUpdateStatus u t then form_handle t f e else (f, None))"

text \<open>Running the form over a list of events collects the requests it issues.\<close>

fun form_run :: "user option \<Rightarrow> ticket_detail \<Rightarrow> status_form \<Rightarrow> form_event list
    \<Rightarrow> status_form \<times> request list" where
  "form_run u t f [] = (f, [])"
| "form_run u t f (e # es) =
     (let (f1, r) = form_step u t f e; (f2, rs) = form_run u t f1 es
      in (f2, (case r of None \<Rightarrow> [] | Some q \<Rightarrow> [q]) @ rs))"

text \<open>The status a status-update request asks for.\<close>

definition requested_status :: "request \<Rightarrow> json option" where
  "requested_status r = map_of (body r) ''status''"


text \<open>Invariant of the form: while it is open, the selected status is one of the options.\<close>

definition form_ok :: "ticket_detail \<Rightarrow> status_form \<Rightarrow> bool" where
  "form_ok t f = (form_isOpen f \<longrightarrow> form_status f \<in> set (availableStatuses t))"

text \<open>An employee, and an open ticket in status \<open>Assigned\<close> that is assigned to them.\<close>

definition example_employee :: "user option" where
  "example_employee = Some \<lparr> user_id = ''u-1'', user_roles = [''EMPLOYEE''] \<rparr>"

definition example_ticket :: ticket_detail where
  "example_ticket =
     \<lparr> ticket_id = ''t-1'', ticket_status = ''Assigned'', is_closed = False,
       ticket_priority = None, assigned_to = Some \<lparr> ref_id = ''u-1'' \<rparr> \<rparr>"


section \<open>Token storage (auth/tokenStorage.ts)\<close>

text \<open>
  The module state: the access token and its absolute expiry (milliseconds) in memory, and
  the refresh token in \<open>localStorage\<close>. \<open>localStorage\<close> may be unavailable; every
  access to it is wrapped in \<open>try/catch\<close>, so a read then yields \<open>null\<close> and a write or a
  removal is skipped. \<open>Date.now()\<close> is the parameter \<open>now\<close>; times are whole
  milliseconds, kept as \<open>int\<close>.
\<close>

record token_storage =
  accessToken :: "string option"
  tokenExpiresAt :: "int option"
  storageAvailable :: bool
  persistedRefreshToken :: "string option"

definition getAccessToken :: "token_storage \<Rightarrow> string option" where
  "getAccessToken ts = accessToken ts"

definition setAccessToken :: "string \<Rightarrow> int \<Rightarrow> int \<Rightarrow> token_storage \<Rightarrow> token_storage" where
  "setAccessToken token expiresIn now ts =
     ts \<lparr> accessToken := Some token, tokenExpiresAt := Some (now + expiresIn * 1000) \<rparr>"

definition getRefreshToken :: "token_storage \<Rightarrow> string option" where
  "getRefreshToken ts = (if storageAvailable ts then persistedRefreshToken ts else None)"

definition setRefreshToken :: "string \<Rightarrow> token_storage \<Rightarrow> token_storage" where
  "setRefreshToken token ts =
     (if storageAvailable ts then ts \<lparr> persistedRefreshToken := Some token \<rparr> else ts)"

definition clearTokens :: "token_storage \<Rightarrow> token_storage" where
  "clearTokens ts =
     (let ts1 = ts \<lparr> accessToken := None, tokenExpiresAt := None \<rparr>
      in if storageAvailable ts1 then ts1 \<lparr> persistedRefreshToken := None \<rparr> else ts1)"

text \<open>\<open>if (!tokenExpiresAt) return true\<close>: \<open>null\<close> and \<open>0\<close> are both falsy.\<close>

definition isTokenExpiringSoon :: "int \<Rightarrow> int \<Rightarrow> token_storage \<Rightarrow> bool" where
  "isTokenExpiringSoon thresholdSeconds now ts =
     (case tokenExpiresAt ts of
        None \<Rightarrow> True
      | Some e \<Rightarrow>
          if e = 0 then True
          else (let thresholdMs = thresholdSeconds * 1000 in now \<ge> e - thresholdMs))"

definition hasValidToken :: "int \<Rightarrow> token_storage \<Rightarrow> bool" where
  "hasValidToken now ts = (accessToken ts \<noteq> None \<and> \<not> isTokenExpiringSoon 0 now ts)"

text \<open>The store is empty: no access token, no expiry, and no refresh token can be read.\<close>

definition cleared :: "token_storage \<Rightarrow> bool" where
  "cleared ts = (accessToken ts = None \<and> tokenExpiresAt ts = None \<and> getRefreshToken ts = None)"


section \<open>The axios client with token refresh (api/client.ts)\<close>

subsection \<open>Requests, errors and the module state\<close>

text \<open>
  An axios request config, as far as the interceptors read and write it: the URL (which may
  be \<open>undefined\<close>), the \<open>Authorization\<close> header and the \<open>_retry\<close> flag. The field
  \<open>resends\<close> is not in the source: it counts how often the interceptors have handed this
  request back to \<open>apiClient\<close>, and no function below reads it.
\<close>

record config =
  cfg_url :: "string option"
  authorization :: "string option"
  retry :: bool
  resends :: nat

text \<open>An error is a plain \<open>Error\<close> with a message, or an \<open>AxiosError\<close> with the status of its
  response (if there was one) and the config of the request it belongs to.\<close>

datatype error = JsError string | AxiosError "nat option" "config option"

text \<open>\<open>String.prototype.includes\<close>.\<close>

fun js_includes :: "string \<Rightarrow> string \<Rightarrow> bool" where
  "js_includes [] pat = (pat = [])"
| "js_includes (c # cs) pat = (prefix pat (c # cs) \<or> js_includes cs pat)"

text \<open>The two \<open>isAuthEndpoint\<close> tests; \<open>config.url?.includes(...)\<close> is \<open>undefined\<close>, hence
  falsy, when there is no URL. The response interceptor also lists the logout URL.\<close>

definition isAuthEndpoint_request :: "string option \<Rightarrow> bool" where
  "isAuthEndpoint_request u =
     (case u of
        None \<Rightarrow> False
      | Some v \<Rightarrow> js_includes v ''/api/auth/login'' \<or> js_includes v ''/api/auth/refresh'')"

definition isAuthEndpoint_response :: "string option \<Rightarrow> bool" where
  "isAuthEndpoint_response u =
     (case u of
        None \<Rightarrow> False
      | Some v \<Rightarrow> js_includes v ''/api/auth/login'' \<or> js_includes v ''/api/auth/refresh''
                  \<or> js_includes v ''/api/auth/logout'')"

text \<open>
  An interceptor suspended at an \<open>await\<close>: the request interceptor doing or awaiting a
  proactive refresh, or the response interceptor doing or awaiting a refresh after a 401.
  Each holds the request it will continue with.
\<close>

datatype waiter = Proactive config | Reactive config

text \<open>
  One invocation of \<open>refreshAccessToken\<close>: the POST is out (with the refresh token sent),
  or the promise has settled with an error or with the new access token and the awaiting
  interceptor has not resumed yet.
\<close>

datatype refresh_call = Posted string | Settled "error + string"

text \<open>
  The state of the module and of the requests that go through it. \<open>isRefreshing\<close> and
  \<open>refreshQueue\<close> are the module variables. \<open>inflight\<close> holds the invocations of
  \<open>refreshAccessToken\<close> that have not been resumed from, each with the interceptor that
  awaits it: nothing in this type bounds their number. \<open>entering\<close> are requests handed to
  \<open>apiClient\<close> whose request interceptor has not run yet, \<open>sent\<close> the requests on the
  network. \<open>resolved\<close> and \<open>rejected\<close> record how calls ended, and \<open>refreshPosts\<close> the
  refresh POSTs issued so far, each with the refresh token it carried.
\<close>

record client =
  tokens :: token_storage
  baseURL :: string
  isRefreshing :: bool
  refreshQueue :: "waiter list"
  inflight :: "(waiter \<times> refresh_call) list"
  entering :: "config list"
  sent :: "config list"
  resolved :: "config list"
  rejected :: "(config \<times> error) list"
  refreshPosts :: "string list"

definition initial :: "token_storage \<Rightarrow> string \<Rightarrow> client" where
  "initial ts base =
     \<lparr> tokens = ts, baseURL = base, isRefreshing = False, refreshQueue = [], inflight = [],
       entering = [], sent = [], resolved = [], rejected = [], refreshPosts = [] \<rparr>"

definition send :: "config \<Rightarrow> client \<Rightarrow> client" where
  "send cfg s = s \<lparr> sent := sent s @ [cfg] \<rparr>"

definition reject :: "config \<Rightarrow> error \<Rightarrow> client \<Rightarrow> client" where
  "reject cfg err s = s \<lparr> rejected := rejected s @ [(cfg, err)] \<rparr>"

text \<open>\<open>apiClient(originalRequest)\<close>: the request goes through the pipeline again.\<close>

definition retryRequest :: "config \<Rightarrow> client \<Rightarrow> client" where
  "retryRequest cfg s = s \<lparr> entering := entering s @ [cfg \<lparr> resends := resends cfg + 1 \<rparr>] \<rparr>"

definition bearer :: "string \<Rightarrow> string" where
  "bearer token = ''Bearer '' @ token"

subsection \<open>processQueue and refreshAccessToken\<close>

text \<open>
  \<open>processQueue(error, token)\<close> settles the queued promises and empties the queue. Every
  error of this model is an object, so \<open>if (error)\<close> holds exactly when an error is passed;
  \<open>else if (token)\<close> is truthiness of a string. A waiter for which neither test holds is
  neither resolved nor rejected. Settling a promise only schedules its continuation, so
  the function returns the settlements, to be run after the caller has finished.
\<close>

datatype settlement = ResolveWith string | RejectWith error

definition processQueue :: "error option \<Rightarrow> string option \<Rightarrow> client
    \<Rightarrow> client \<times> (waiter \<times> settlement) list" where
  "processQueue err token s =
     (s \<lparr> refreshQueue := [] \<rparr>,
      List.map_filter
        (\<lambda>promise. if err \<noteq> None then Some (promise, RejectWith (the err))
                    else if truthy_str token then Some (promise, ResolveWith (the token))
                    else None)
        (refreshQueue s))"

text \<open>
  \<open>refreshAccessToken\<close> up to its \<open>await\<close>: without a (truthy) refresh token it throws
  before the \<open>try\<close> block and posts nothing; otherwise it posts the refresh request with the
  separate axios instance. The interceptor that called it is suspended either way.
\<close>

definition startRefresh :: "waiter \<Rightarrow> client \<Rightarrow> client" where
  "startRefresh w s =
     (let refreshToken = getRefreshToken (tokens s) in
      if \<not> truthy_str refreshToken
      then s \<lparr> inflight := inflight s @ [(w, Settled (Inl (JsError ''No refresh token available'')))] \<rparr>
      else s \<lparr> inflight := inflight s @ [(w, Posted (the refreshToken))],
               refreshPosts := refreshPosts s @ [the refreshToken] \<rparr>)"

text \<open>The answer to the refresh POST: the new token and its lifetime in seconds, or a
  failure with the status of the response, if any.\<close>

datatype refresh_response = RefreshOk string int | RefreshFailed "nat option"

definition refreshConfig :: "client \<Rightarrow> config" where
  "refreshConfig s =
     \<lparr> cfg_url = Some (baseURL s @ ''/api/auth/refresh/''), authorization = None,
       retry = False, resends = 0 \<rparr>"

text \<open>
  \<open>refreshAccessToken\<close> after its \<open>await\<close>: on success it stores the new access token and
  returns it; on failure the \<open>catch\<close> clears all tokens and rethrows.
\<close>

definition refreshResponse :: "nat \<Rightarrow> refresh_response \<Rightarrow> int \<Rightarrow> client \<Rightarrow> client" where
  "refreshResponse i r now s =
     (if i < length (inflight s) then
        (case inflight s ! i of
           (w, Settled out) \<Rightarrow> s
         | (w, Posted rt) \<Rightarrow>
             (case r of
                RefreshOk access_token expires_in \<Rightarrow>
                  s \<lparr> tokens := setAccessToken access_token expires_in now (tokens s),
                      inflight := (inflight s) [i := (w, Settled (Inr access_token))] \<rparr>
              | RefreshFailed status \<Rightarrow>
                  s \<lparr> tokens := clearTokens (tokens s),
                      inflight := (inflight s)
                        [i := (w, Settled (Inl (AxiosError status (Some (refreshConfig s)))))] \<rparr>))
      else s)"

subsection \<open>The interceptors\<close>

text \<open>
  The request interceptor up to its first \<open>await\<close> or its return. An auth endpoint goes
  out untouched. Otherwise, with a truthy access token that expires within 60 seconds, the
  interceptor starts a refresh if none is marked as running, and else queues itself.
  Without that condition the token, if truthy, is attached and the request goes out.
\<close>

definition requestInterceptor :: "int \<Rightarrow> config \<Rightarrow> client \<Rightarrow> client" where
  "requestInterceptor now cfg s =
     (if isAuthEndpoint_request (cfg_url cfg) then send cfg s
      else
        (let token = getAccessToken (tokens s) in
         if truthy_str token \<and> isTokenExpiringSoon 60 now (tokens s) then
           (if \<not> isRefreshing s
            then startRefresh (Proactive cfg) (s \<lparr> isRefreshing := True \<rparr>)
            else s \<lparr> refreshQueue := refreshQueue s @ [Proactive cfg] \<rparr>)
         else send (if truthy_str token
                    then cfg \<lparr> authorization := Some (bearer (the token)) \<rparr>
                    else cfg) s))"

text \<open>
  The error handler of the response interceptor, up to its first \<open>await\<close> or its return.
  \<open>call\<close> is the request whose promise the handler settles; the handler itself reads only
  the error: its response status and its config (\<open>originalRequest\<close>).
\<close>

definition responseRejected :: "config \<Rightarrow> error \<Rightarrow> client \<Rightarrow> client" where
  "responseRejected call err s =
     (case err of
        JsError msg \<Rightarrow> reject call err s
      | AxiosError status originalRequest \<Rightarrow>
          if status \<noteq> Some 401 \<or> originalRequest = None then reject call err s
          else
            (let orig = the originalRequest in
             if isAuthEndpoint_response (cfg_url orig) then reject call err s
             else if retry orig then reject call err (s \<lparr> tokens := clearTokens (tokens s) \<rparr>)
             else
               (let orig1 = orig \<lparr> retry := True \<rparr> in
                if \<not> isRefreshing s
                then startRefresh (Reactive orig1) (s \<lparr> isRefreshing := True \<rparr>)
                else s \<lparr> refreshQueue := refreshQueue s @ [Reactive orig1] \<rparr>)))"

text \<open>
  The continuation of a queued interceptor once its promise is settled. A request
  interceptor that is rejected throws, and axios passes that error on to the error handler
  of the response interceptor.
\<close>

fun wake :: "waiter \<times> settlement \<Rightarrow> client \<Rightarrow> client" where
  "wake (Reactive orig, ResolveWith token) s =
     retryRequest (orig \<lparr> authorization := Some (bearer token) \<rparr>) s"
| "wake (Reactive orig, RejectWith err) s = reject orig err s"
| "wake (Proactive cfg, ResolveWith token) s =
     send (if token \<noteq> [] then cfg \<lparr> authorization := Some (bearer token) \<rparr> else cfg) s"
| "wake (Proactive cfg, RejectWith err) s = responseRejected cfg err s"

definition wakeAll :: "(waiter \<times> settlement) list \<Rightarrow> client \<Rightarrow> client" where
  "wakeAll ws s = foldl (\<lambda>a w. wake w a) s ws"

text \<open>
  The interceptor that started the refresh resumes from \<open>await refreshAccessToken()\<close>.
  The request interceptor: on success \<open>processQueue(null, token)\<close>, \<open>finally\<close>, attach the
  token if truthy, return the config; on failure \<open>processQueue(error, null)\<close>, rethrow,
  \<open>finally\<close>. The response interceptor: on success \<open>processQueue(null, newToken)\<close>, set the
  header, hand the request back to \<open>apiClient\<close>, \<open>finally\<close>; on failure
  \<open>processQueue(refreshError, null)\<close>, \<open>clearTokens()\<close>, reject, \<open>finally\<close>. The
  continuations of the settled waiters run after that; they are part of the same step, and
  the order in which one step adds its entries to \<open>rejected\<close>, \<open>sent\<close> and \<open>entering\<close> carries
  no meaning. Likewise \<open>refreshResponse\<close> and \<open>resume\<close> are two steps, so that other events
  may fall between the settling of the refresh and the resumption of its interceptor.
\<close>

definition resume :: "nat \<Rightarrow> client \<Rightarrow> client" where
  "resume i s =
     (if i < length (inflight s) then
        (case inflight s ! i of
           (w, Posted rt) \<Rightarrow> s
         | (w, Settled out) \<Rightarrow>
             (let s1 = s \<lparr> inflight := take i (inflight s) @ drop (Suc i) (inflight s) \<rparr> in
              case w of
                Proactive cfg \<Rightarrow>
                  (case out of
                     Inr token \<Rightarrow>
                       (let (s2, settled) = processQueue None (Some token) s1;
                            s3 = s2 \<lparr> isRefreshing := False \<rparr>;
                            s4 = send (if token \<noteq> []
                                       then cfg \<lparr> authorization := Some (bearer token) \<rparr>
                                       else cfg) s3
                        in wakeAll settled s4)
                   | Inl err \<Rightarrow>
                       (let (s2, settled) = processQueue (Some err) None s1;
                            s3 = s2 \<lparr> isRefreshing := False \<rparr>;
                            s4 = responseRejected cfg err s3
                        in wakeAll settled s4))
              | Reactive orig \<Rightarrow>
                  (case out of
                     Inr newToken \<Rightarrow>
                       (let (s2, settled) = processQueue None (Some newToken) s1;
                            s3 = retryRequest (orig \<lparr> authorization := Some (bearer newToken) \<rparr>) s2;
                            s4 = s3 \<lparr> isRefreshing := False \<rparr>
                        in wakeAll settled s4)
                   | Inl refreshError \<Rightarrow>
                       (let (s2, settled) = processQueue (Some refreshError) None s1;
                            s3 = s2 \<lparr> tokens := clearTokens (tokens s2) \<rparr>;
                            s4 = reject orig refreshError s3;
                            s5 = s4 \<lparr> isRefreshing := False \<rparr>
                        in wakeAll settled s5))))
      else s)"

subsection \<open>Events\<close>

text \<open>
  JavaScript runs one task at a time, and each function above is one uninterrupted piece of
  a task. The events are all that can happen next: the application makes a fresh call; the
  request interceptor of a pending request runs; the server answers a request that is out;
  the refresh POST is answered; the interceptor awaiting a settled refresh resumes; and the
  rest of the application writes the token store (login, session restore, logout). An event
  that has nothing to act on leaves the state as it is.
\<close>

datatype response = Success | Failure "nat option"

datatype event =
    NewCall "string option"
  | Enter config int
  | Respond config response
  | RefreshResponse nat refresh_response int
  | Resume nat
  | SetAccessToken string int int
  | SetRefreshToken string
  | ClearTokens

definition newConfig :: "string option \<Rightarrow> config" where
  "newConfig u = \<lparr> cfg_url = u, authorization = None, retry = False, resends = 0 \<rparr>"

fun step :: "event \<Rightarrow> client \<Rightarrow> client" where
  "step (NewCall u) s = s \<lparr> entering := entering s @ [newConfig u] \<rparr>"
| "step (Enter cfg now) s =
     (if cfg \<in> set (entering s)
      then requestInterceptor now cfg (s \<lparr> entering := remove1 cfg (entering s) \<rparr>)
      else s)"
| "step (Respond cfg r) s =
     (if cfg \<in> set (sent s) then
        (let s1 = s \<lparr> sent := remove1 cfg (sent s) \<rparr> in
         case r of
           Success \<Rightarrow> s1 \<lparr> resolved := resolved s1 @ [cfg] \<rparr>
         | Failure status \<Rightarrow> responseRejected cfg (AxiosError status (Some cfg)) s1)
      else s)"
| "step (RefreshResponse i r now) s = refreshResponse i r now s"
| "step (Resume i) s = resume i s"
| "step (SetAccessToken token expiresIn now) s =
     s \<lparr> tokens := setAccessToken token expiresIn now (tokens s) \<rparr>"
| "step (SetRefreshToken token) s = s \<lparr> tokens := setRefreshToken token (tokens s) \<rparr>"
| "step ClearTokens s = s \<lparr> tokens := clearTokens (tokens s) \<rparr>"

definition run :: "event list \<Rightarrow> client \<Rightarrow> client" where
  "run evs s = foldl (\<lambda>a e. step e a) s evs"


subsection \<open>Notions used to state the properties of the client\<close>

text \<open>
  Both interceptors end in the same single-flight branch once they have decided that a
  refresh is needed: start one if none is marked as running, else join the queue.
\<close>

definition requireRefresh :: "waiter \<Rightarrow> client \<Rightarrow> client" where
  "requireRefresh w s =
     (if \<not> isRefreshing s then startRefresh w (s \<lparr> isRefreshing := True \<rparr>)
      else s \<lparr> refreshQueue := refreshQueue s @ [w] \<rparr>)"

text \<open>
  The single-flight invariant: the number of refresh invocations not yet resumed from is
  one while \<open>isRefreshing\<close> is set and zero otherwise, and interceptors wait in the queue
  only while it is set.
\<close>

definition single_flight :: "client \<Rightarrow> bool" where
  "single_flight s =
     (length (inflight s) = (if isRefreshing s then 1 else 0)
      \<and> (\<not> isRefreshing s \<longrightarrow> refreshQueue s = []))"


text \<open>
  The retry invariant. A request has been handed back to \<open>apiClient\<close> at most once, and
  only if its \<open>_retry\<close> flag is set; the flag is never set on a request to an auth endpoint.
  An interceptor suspended in the response interceptor holds a flagged request that has
  not been handed back yet. The same holds for the requests carried inside errors.
\<close>

definition cfg_ok :: "config \<Rightarrow> bool" where
  "cfg_ok c = (resends c \<le> (if retry c then 1 else 0)
               \<and> (retry c \<longrightarrow> \<not> isAuthEndpoint_response (cfg_url c)))"

fun waiter_ok :: "waiter \<Rightarrow> bool" where
  "waiter_ok (Proactive c) = cfg_ok c"
| "waiter_ok (Reactive c) = (retry c \<and> resends c = 0 \<and> \<not> isAuthEndpoint_response (cfg_url c))"

fun error_ok :: "error \<Rightarrow> bool" where
  "error_ok (AxiosError status (Some c)) = cfg_ok c"
| "error_ok (AxiosError status None) = True"
| "error_ok (JsError msg) = True"

fun call_ok :: "refresh_call \<Rightarrow> bool" where
  "call_ok (Settled (Inl e)) = error_ok e"
| "call_ok (Settled (Inr t)) = True"
| "call_ok (Posted rt) = True"

fun settlement_ok :: "settlement \<Rightarrow> bool" where
  "settlement_ok (RejectWith e) = error_ok e"
| "settlement_ok (ResolveWith t) = True"

definition bounded_retry :: "client \<Rightarrow> bool" where
  "bounded_retry s =
     ((\<forall>c \<in> set (entering s). cfg_ok c) \<and> (\<forall>c \<in> set (sent s). cfg_ok c)
      \<and> (\<forall>c \<in> set (resolved s). cfg_ok c) \<and> (\<forall>p \<in> set (rejected s). cfg_ok (fst p))
      \<and> (\<forall>w \<in> set (refreshQueue s). waiter_ok w)
      \<and> (\<forall>p \<in> set (inflight s). waiter_ok (fst p) \<and> call_ok (snd p)))"


text \<open>The request a suspended interceptor holds.\<close>

fun waiter_config :: "waiter \<Rightarrow> config" where
  "waiter_config (Proactive c) = c"
| "waiter_config (Reactive c) = c"

text \<open>An error on which the response interceptor does nothing but reject.\<close>

fun terminal :: "error \<Rightarrow> bool" where
  "terminal (JsError msg) = True"
| "terminal (AxiosError status None) = True"
| "terminal (AxiosError status (Some c)) = (status \<noteq> Some 401 \<or> isAuthEndpoint_response (cfg_url c))"

text \<open>A queued or leading request as it continues once the refresh has returned a token:
  sent on with the token attached, or handed back to the client with the token attached.\<close>

definition resumedSend :: "string \<Rightarrow> config \<Rightarrow> config" where
  "resumedSend token c = c \<lparr> authorization := Some (bearer token) \<rparr>"

definition resumedRetry :: "string \<Rightarrow> config \<Rightarrow> config" where
  "resumedRetry token c = c \<lparr> authorization := Some (bearer token), resends := Suc (resends c) \<rparr>"

text \<open>The requests held by the request interceptors, resp. the response interceptors, of a
  list of suspended interceptors.\<close>

fun proactives :: "waiter list \<Rightarrow> config list" where
  "proactives [] = []"
| "proactives (Proactive c # ws) = c # proactives ws"
| "proactives (Reactive c # ws) = proactives ws"

fun reactives :: "waiter list \<Rightarrow> config list" where
  "reactives [] = []"
| "reactives (Proactive c # ws) = reactives ws"
| "reactives (Reactive c # ws) = c # reactives ws"





text \<open>Every error a settled refresh holds is one the response interceptor only rejects.\<close>

fun call_terminal :: "refresh_call \<Rightarrow> bool" where
  "call_terminal (Settled (Inl e)) = terminal e"
| "call_terminal (Settled (Inr t)) = True"
| "call_terminal (Posted rt) = True"

definition refresh_errors_terminal :: "client \<Rightarrow> bool" where
  "refresh_errors_terminal s = (\<forall>p \<in> set (inflight s). call_terminal (snd p))"

subsection \<open>A worked scenario\<close>

text \<open>
  A store holding an access token \<open>old\<close> that expires at time 100000 and a refresh token;
  a call to the ticket list; and the events of one reactive refresh: the call goes out at
  time 0 with the old token, the server answers 401, the refresh returns \<open>new\<close>, the
  interceptor resumes and hands the call back, and the call goes out again with the new
  token.
\<close>

definition example_tokens :: token_storage where
  "example_tokens =
     \<lparr> accessToken = Some ''old'', tokenExpiresAt = Some 100000, storageAvailable = True,
       persistedRefreshToken = Some ''r1'' \<rparr>"

definition example_call :: config where
  "example_call = newConfig (Some ''/api/tickets/'')"

definition example_retried :: config where
  "example_retried =
     \<lparr> cfg_url = Some ''/api/tickets/'', authorization = Some ''Bearer new'', retry = True,
       resends = 1 \<rparr>"

definition example_events :: "event list" where
  "example_events =
     [NewCall (Some ''/api/tickets/''), Enter example_call 0,
      Respond (example_call \<lparr> authorization := Some ''Bearer old'' \<rparr>) (Failure (Some 401)),
      RefreshResponse 0 (RefreshOk ''new'' 3600) 5000, Resume 0, Enter example_retried 6000]"


text \<open>
  A second call; the two calls as they go out with the old token; the state in which both
  are on the network; a store without a refresh token with one call pending; and the states
  used for the proactive refresh: one call pending shortly before the token expires, and a
  second call pending while the refresh started by the first is out.
\<close>

definition example_call2 :: config where
  "example_call2 = newConfig (Some ''/api/tickets/7/'')"

definition example_sent :: config where
  "example_sent = example_call \<lparr> authorization := Some ''Bearer old'' \<rparr>"

definition example_sent2 :: config where
  "example_sent2 = example_call2 \<lparr> authorization := Some ''Bearer old'' \<rparr>"


definition example_no_refresh_token :: client where
  "example_no_refresh_token =
     run [NewCall (Some ''/api/tickets/'')]
       (initial (example_tokens \<lparr> persistedRefreshToken := None \<rparr>) ''http://h'')"

definition example_pending :: client where
  "example_pending =
     run [NewCall (Some ''/api/tickets/'')] (initial example_tokens ''http://h'')"

definition example_refreshing :: client where
  "example_refreshing =
     run [NewCall (Some ''/api/tickets/''), NewCall (Some ''/api/tickets/7/''),
          Enter example_call 70000] (initial example_tokens ''http://h'')"




section \<open>Properties of the role helpers\<close>

lemma js_ge_mono: "a \<le> b \<Longrightarrow> js_ge v b \<Longrightarrow> js_ge v a"
  by (cases "(v, b)" rule: js_ge.cases) auto

lemma RoleNameToId_unrecognized:
  "\<not> recognized name \<Longrightarrow> RoleNameToId name = None \<or> RoleNameToId name = Some Inherited"
  by (simp add: recognized_def RoleNameToId_def)

lemma RoleIdToName_inverse:
  "RoleIdToName r = Some name \<Longrightarrow> RoleNameToId name = Some (Num r)"
  by (auto simp: RoleIdToName_def RoleNameToId_def split: if_splits)

lemma RoleIdToName_recognized: "RoleIdToName r = Some name \<Longrightarrow> recognized name"
  by (auto simp: RoleIdToName_def recognized_def split: if_splits)

lemma js_ge_defined: "js_ge v m \<Longrightarrow> v \<noteq> None"
  by (cases v) auto

lemma hasMinRole_iff:
  "hasMinRole rs m \<longleftrightarrow> (\<exists>name \<in> set rs. js_ge (RoleNameToId name) m)"
  using js_ge_defined by (fastforce simp: hasMinRole_def Let_def list_ex_iff)

lemma hasMinRole_mono: "a \<le> b \<Longrightarrow> hasMinRole rs b \<Longrightarrow> hasMinRole rs a"
  unfolding hasMinRole_iff using js_ge_mono by blast

lemma hasRole_hasMinRole: "hasRole rs r \<Longrightarrow> hasMinRole rs r"
proof -
  assume h: "hasRole rs r"
  then obtain name where n: "RoleIdToName r = Some name" and mem: "name \<in> set rs"
    by (auto simp: hasRole_def split: option.splits)
  from n have "js_ge (RoleNameToId name) r"
    by (simp add: RoleIdToName_inverse)
  with mem show ?thesis unfolding hasMinRole_iff by blast
qed

lemma unrecognized_no_min_role:
  assumes "\<forall>name \<in> set rs. \<not> recognized name"
  shows "\<not> hasMinRole rs m"
proof
  assume "hasMinRole rs m"
  then obtain name where mem: "name \<in> set rs" and ge: "js_ge (RoleNameToId name) m"
    unfolding hasMinRole_iff by blast
  from assms mem have "RoleNameToId name = None \<or> RoleNameToId name = Some Inherited"
    by (simp add: RoleNameToId_unrecognized)
  with ge show False by auto
qed

lemma unrecognized_no_role:
  assumes "\<forall>name \<in> set rs. \<not> recognized name"
  shows "\<not> hasRole rs r"
  using assms RoleIdToName_recognized
  by (fastforce simp: hasRole_def split: option.splits)

lemma unrecognized_no_any_role:
  assumes "\<forall>name \<in> set rs. \<not> recognized name"
  shows "\<not> hasAnyRole rs ids"
  using unrecognized_no_role [OF assms] by (simp add: hasAnyRole_def list_ex_iff)

text \<open>
  Claim C9. The four role ids are ordered USER(1) < EMPLOYEE(2) < MANAGER(3) < ADMIN(4);
  \<open>hasMinRole\<close> is monotone in its threshold (a check against a higher threshold implies
  the check against any lower one); holding a role exactly implies holding at least that
  role; and a list made only of unrecognized role names passes none of \<open>hasMinRole\<close>,
  \<open>hasRole\<close> and \<open>hasAnyRole\<close>, whatever the threshold or the ids asked for.
\<close>

theorem role_order_and_min_role:
  "Roles_USER = 1 \<and> Roles_EMPLOYEE = 2 \<and> Roles_MANAGER = 3 \<and> Roles_ADMIN = 4
   \<and> Roles_USER < Roles_EMPLOYEE \<and> Roles_EMPLOYEE < Roles_MANAGER \<and> Roles_MANAGER < Roles_ADMIN
   \<and> (a \<le> b \<longrightarrow> hasMinRole rs b \<longrightarrow> hasMinRole rs a)
   \<and> (hasRole rs r \<longrightarrow> hasMinRole rs r)
   \<and> ((\<forall>name \<in> set us. \<not> recognized name) \<longrightarrow>
        \<not> hasMinRole us m \<and> \<not> hasRole us r \<and> \<not> hasAnyRole us ids)"
proof -
  have ids: "Roles_USER = 1 \<and> Roles_EMPLOYEE = 2 \<and> Roles_MANAGER = 3 \<and> Roles_ADMIN = 4
     \<and> Roles_USER < Roles_EMPLOYEE \<and> Roles_EMPLOYEE < Roles_MANAGER \<and> Roles_MANAGER < Roles_ADMIN"
    by (simp add: Roles_USER_def Roles_EMPLOYEE_def Roles_MANAGER_def Roles_ADMIN_def)
  have mono: "a \<le> b \<longrightarrow> hasMinRole rs b \<longrightarrow> hasMinRole rs a"
    using hasMinRole_mono by blast
  have exact: "hasRole rs r \<longrightarrow> hasMinRole rs r"
    using hasRole_hasMinRole by blast
  have unrec: "(\<forall>name \<in> set us. \<not> recognized name) \<longrightarrow>
        \<not> hasMinRole us m \<and> \<not> hasRole us r \<and> \<not> hasAnyRole us ids"
    using unrecognized_no_min_role unrecognized_no_role unrecognized_no_any_role by blast
  from ids mono exact unrec show ?thesis by blast
qed

theorem role_order_and_min_role_witness:
  "(2::int) \<le> 3 \<and> hasMinRole [''USER'', ''MANAGER''] 3 \<and> hasMinRole [''USER'', ''MANAGER''] 2
   \<and> hasRole [''USER'', ''MANAGER''] 3
   \<and> \<not> recognized ''ROOT'' \<and> \<not> recognized ''constructor'' \<and> \<not> recognized ''admin''
   \<and> \<not> hasMinRole [''ROOT'', ''constructor'', ''admin''] 0
   \<and> \<not> hasRole [''ROOT'', ''constructor'', ''admin''] 4
   \<and> \<not> hasAnyRole [''ROOT'', ''constructor'', ''admin''] [1, 2, 3, 4]"
proof -
  have le: "(2::int) \<le> 3" by simp
  have hm: "hasMinRole [''USER'', ''MANAGER''] 3"
    by (simp add: hasMinRole_def RoleNameToId_def Roles_USER_def Roles_MANAGER_def)
  have hr: "hasRole [''USER'', ''MANAGER''] 3"
    by (simp add: hasRole_def RoleIdToName_def Roles_USER_def Roles_EMPLOYEE_def
        Roles_MANAGER_def)
  have un: "\<forall>name \<in> set [''ROOT'', ''constructor'', ''admin'']. \<not> recognized name"
    by (simp add: recognized_def)
  have nr: "\<not> recognized ''ROOT'' \<and> \<not> recognized ''constructor'' \<and> \<not> recognized ''admin''"
    by (simp add: recognized_def)
  from le hm hr un
    role_order_and_min_role [of 2 3 "[''USER'', ''MANAGER'']" 3
      "[''ROOT'', ''constructor'', ''admin'']" 0 "[1, 2, 3, 4]"]
    role_order_and_min_role [of 2 3 "[''USER'', ''MANAGER'']" 4
      "[''ROOT'', ''constructor'', ''admin'']" 0 "[1, 2, 3, 4]"]
  show ?thesis using nr by blast
qed


section \<open>Properties of assignTicket\<close>

text \<open>
  Claim C10. For every ticket id, \<open>assignTicket\<close> called with the target omitted
  (\<open>undefined\<close>) or with the empty string builds the same request, whose body is the empty
  object (no \<open>assigned_to\<close> field); the field is present, with the target as its value,
  exactly when the target is a non-empty string.
\<close>

theorem assignTicket_falsy_target:
  "assignTicket ident None = assignTicket ident (Some '''')
   \<and> body (assignTicket ident None) = []
   \<and> verb (assignTicket ident None) = POST
   \<and> url (assignTicket ident None) = ''/api/tickets/'' @ ident @ ''/assign/''
   \<and> (map_of (body (assignTicket ident target)) ''assigned_to'' =
        (case target of None \<Rightarrow> None | Some t \<Rightarrow> if t = '''' then None else Some (JString t)))
   \<and> (t \<noteq> '''' \<longrightarrow> body (assignTicket ident (Some t)) = [(''assigned_to'', JString t)])"
  by (simp add: assignTicket_def truthy_str_def Let_def split: option.splits)

theorem assignTicket_falsy_target_witness:
  "''u-42'' \<noteq> '''' \<and> body (assignTicket ''t-1'' (Some ''u-42'')) = [(''assigned_to'', JString ''u-42'')]
   \<and> assignTicket ''t-1'' None = assignTicket ''t-1'' (Some '''')
   \<and> body (assignTicket ''t-1'' None) = []"
proof -
  have ne: "''u-42'' \<noteq> ''''" by simp
  from ne assignTicket_falsy_target [of "''t-1''" None "''u-42''"] show ?thesis by blast
qed


section \<open>Properties of the ticket actions\<close>

text \<open>
  Claim C3. For every ticket with \<open>is_closed\<close> set and every user (whatever the roles, also
  with no user), none of the mutating actions of the ticket view is available: self-assign,
  status update, close, priority update, attachment upload and reassign are all disabled
  and the component renders nothing.
\<close>

theorem closed_ticket_offers_no_action:
  "is_closed t \<Longrightarrow>
     TicketActions u t = None
     \<and> \<not> canSelfAssign u t \<and> \<not> canUpdateStatus u t \<and> \<not> canClose u t
     \<and> \<not> canUpdatePriority u t \<and> \<not> canUploadAttachment u t \<and> \<not> canReassign u t"
  by (simp add: TicketActions_def canSelfAssign_def canUpdateStatus_def canClose_def
      canUpdatePriority_def canUploadAttachment_def canReassign_def)

theorem closed_ticket_offers_no_action_witness:
  "is_closed \<lparr> ticket_id = ''t-1'', ticket_status = ''Closed'', is_closed = True,
       ticket_priority = Some 2, assigned_to = Some \<lparr> ref_id = ''u-1'' \<rparr> \<rparr>
   \<and> TicketActions (Some \<lparr> user_id = ''u-1'', user_roles = [''ADMIN''] \<rparr>)
        \<lparr> ticket_id = ''t-1'', ticket_status = ''Closed'', is_closed = True,
          ticket_priority = Some 2, assigned_to = Some \<lparr> ref_id = ''u-1'' \<rparr> \<rparr> = None
   \<and> isManager (Some \<lparr> user_id = ''u-1'', user_roles = [''ADMIN''] \<rparr>)
   \<and> \<not> canReassign (Some \<lparr> user_id = ''u-1'', user_roles = [''ADMIN''] \<rparr>)
        \<lparr> ticket_id = ''t-1'', ticket_status = ''Closed'', is_closed = True,
          ticket_priority = Some 2, assigned_to = Some \<lparr> ref_id = ''u-1'' \<rparr> \<rparr>"
proof -
  let ?t = "\<lparr> ticket_id = ''t-1'', ticket_status = ''Closed'', is_closed = True,
       ticket_priority = Some 2, assigned_to = Some \<lparr> ref_id = ''u-1'' \<rparr> \<rparr>"
  let ?u = "Some \<lparr> user_id = ''u-1'', user_roles = [''ADMIN''] \<rparr>"
  have c: "is_closed ?t" by simp
  have m: "isManager ?u"
    by (simp add: isManager_def auth_roles_def isAtLeastManager_def hasMinRole_def
        RoleNameToId_def Roles_ADMIN_def Roles_MANAGER_def)
  from c m closed_ticket_offers_no_action [OF c, of ?u] show ?thesis by blast
qed


section \<open>Properties of the status-update form\<close>

lemma availableStatuses_set:
  "set (availableStatuses t) = set UPDATABLE_STATUSES - {ticket_status t}"
  by (auto simp: availableStatuses_def)

lemma availableStatuses_nonempty: "availableStatuses t \<noteq> []"
  by (cases "ticket_status t = ''In Progress''")
     (auto simp: availableStatuses_def UPDATABLE_STATUSES_def)

lemma availableStatuses_head: "availableStatuses t = s # ss \<Longrightarrow> s \<noteq> []"
  by (auto simp: availableStatuses_def UPDATABLE_STATUSES_def split: if_splits)

lemma form_handle_ok: "form_ok t f \<Longrightarrow> form_ok t (fst (form_handle t f e))"
  apply (cases e)
  apply (auto simp: form_ok_def handleOpen_def form_close_def UpdateStatus_submit_def
      MutationForm_handleSubmit_def split: list.splits option.splits if_splits
      dest: availableStatuses_head)
  using availableStatuses_nonempty apply blast
  done

lemma form_handle_request:
  "form_ok t f \<Longrightarrow> snd (form_handle t f e) = Some r \<Longrightarrow>
    \<exists>s n. s \<in> set (availableStatuses t) \<and> r = updateTicketStatus (ticket_id t) s n"
  by (cases e) (auto simp: form_ok_def UpdateStatus_submit_def
      MutationForm_handleSubmit_def split: option.splits if_splits)

lemma form_step_ok: "form_ok t f \<Longrightarrow> form_ok t (fst (form_step u t f e))"
  by (simp add: form_step_def form_handle_ok)

lemma form_step_request:
  "form_ok t f \<Longrightarrow> snd (form_step u t f e) = Some r \<Longrightarrow>
    canUpdateStatus u t
    \<and> (\<exists>s n. s \<in> set (availableStatuses t) \<and> r = updateTicketStatus (ticket_id t) s n)"
  using form_handle_request [of t f e r] by (simp add: form_step_def split: if_splits)

lemma form_run_request:
  "form_ok t f \<Longrightarrow> r \<in> set (snd (form_run u t f evs)) \<Longrightarrow>
    canUpdateStatus u t
    \<and> (\<exists>s n. s \<in> set (availableStatuses t) \<and> r = updateTicketStatus (ticket_id t) s n)"
proof (induction evs arbitrary: f)
  case Nil
  then show ?case by simp
next
  case (Cons e es)
  obtain f1 q where st: "form_step u t f e = (f1, q)" by (cases "form_step u t f e")
  obtain f2 rs where rn: "form_run u t f1 es = (f2, rs)" by (cases "form_run u t f1 es")
  from Cons.prems(1) st have ok1: "form_ok t f1" using form_step_ok [of t f u e] by simp
  from Cons.prems(2) st rn have "(q = Some r) \<or> r \<in> set rs"
    by (auto split: option.splits)
  then show ?case
  proof
    assume "q = Some r"
    with st Cons.prems(1) show ?thesis using form_step_request [of t f u e r] by simp
  next
    assume "r \<in> set rs"
    with rn Cons.IH [OF ok1] show ?thesis by simp
  qed
qed

lemma form_run_not_rendered:
  "\<not> canUpdateStatus u t \<Longrightarrow> form_run u t f evs = (f, [])"
  by (induction evs arbitrary: f) (simp_all add: form_step_def)

lemma form_run_reaches:
  "canUpdateStatus u t \<Longrightarrow> s \<in> set (availableStatuses t) \<Longrightarrow> trim n \<noteq> [] \<Longrightarrow>
   snd (form_run u t status_form_init [HandleOpen, SelectStatus s, SetNote n, Submit])
     = [updateTicketStatus (ticket_id t) s n]"
  by (simp add: form_step_def status_form_init_def handleOpen_def UpdateStatus_submit_def
      MutationForm_handleSubmit_def UpdateStatus_isValid_def Let_def)

lemma requested_status_update [simp]:
  "requested_status (updateTicketStatus i s n) = Some (JString s)"
  by (simp add: requested_status_def updateTicketStatus_def)

lemma example_canUpdateStatus: "canUpdateStatus example_employee example_ticket"
  by (simp add: canUpdateStatus_def isEmployee_def auth_roles_def isAtLeastEmployee_def
      hasMinRole_def RoleNameToId_def Roles_EMPLOYEE_def isAssignedToMe_def
      example_employee_def example_ticket_def)

lemma example_availableStatuses:
  "availableStatuses example_ticket = [''In Progress'', ''Waiting'', ''On Hold'']"
  by (simp add: availableStatuses_def UPDATABLE_STATUSES_def example_ticket_def)

lemma example_note: "trim [111, 107] = [111, 107]"
  by (simp add: trim_def isWhiteSpace_def)

text \<open>
  Claim C4, as the spec states it, fails on a ticket in status \<open>Assigned\<close> that is assigned
  to the employee looking at it, where the status-update action is offered: the form filters
  the current status out of its options, so \<open>Assigned\<close> is not among them; asking for it in
  the select leaves the preselected \<open>In Progress\<close>; and no sequence of user actions makes
  the form ask for \<open>Assigned\<close>.
\<close>

theorem status_update_self_loop_counterexample:
  "ticket_status example_ticket = ''Assigned''
   \<and> canUpdateStatus example_employee example_ticket
   \<and> TicketActions example_employee example_ticket
       = Some [UpdateStatusButton, UploadAttachmentButton, UpdatePriorityButton, CloseTicketButton]
   \<and> availableStatuses example_ticket = [''In Progress'', ''Waiting'', ''On Hold'']
   \<and> ''Assigned'' \<notin> set (availableStatuses example_ticket)
   \<and> set (availableStatuses example_ticket)
      \<noteq> {''In Progress'', ''Waiting'', ''On Hold'', ''Assigned''}
   \<and> map requested_status (snd (form_run example_employee example_ticket status_form_init
        [HandleOpen, SelectStatus ''Assigned'', SetNote [111, 107], Submit]))
      = [Some (JString ''In Progress'')]
   \<and> (\<forall>evs. Some (JString ''Assigned'')
          \<notin> set (map requested_status
                  (snd (form_run example_employee example_ticket status_form_init evs))))"
proof -
  note av = example_availableStatuses
  note cu = example_canUpdateStatus
  have st: "ticket_status example_ticket = ''Assigned''"
    by (simp add: example_ticket_def)
  have em: "isEmployee example_employee" and am: "isAssignedToMe example_employee example_ticket"
    using cu by (simp_all add: canUpdateStatus_def)
  have nm: "\<not> isManager example_employee"
    by (simp add: isManager_def auth_roles_def isAtLeastManager_def hasMinRole_def
        RoleNameToId_def Roles_EMPLOYEE_def Roles_MANAGER_def example_employee_def)
  have op: "\<not> is_closed example_ticket" and asg: "assigned_to example_ticket \<noteq> None"
    by (simp_all add: example_ticket_def)
  have ta: "TicketActions example_employee example_ticket
       = Some [UpdateStatusButton, UploadAttachmentButton, UpdatePriorityButton, CloseTicketButton]"
    using em am nm op asg
    by (simp add: TicketActions_def canSelfAssign_def canUpdateStatus_def canClose_def
        canUpdatePriority_def canUploadAttachment_def canReassign_def)
  have a: "''Assigned'' \<notin> set (availableStatuses example_ticket)"
    by (simp add: av)
  have b: "set (availableStatuses example_ticket)
      \<noteq> {''In Progress'', ''Waiting'', ''On Hold'', ''Assigned''}"
  proof
    assume "set (availableStatuses example_ticket)
      = {''In Progress'', ''Waiting'', ''On Hold'', ''Assigned''}"
    then have "''Assigned'' \<in> set (availableStatuses example_ticket)" by simp
    with a show False by simp
  qed
  have c: "map requested_status (snd (form_run example_employee example_ticket status_form_init
        [HandleOpen, SelectStatus ''Assigned'', SetNote [111, 107], Submit]))
      = [Some (JString ''In Progress'')]"
    by (simp add: form_step_def cu av example_note status_form_init_def handleOpen_def
        UpdateStatus_submit_def MutationForm_handleSubmit_def UpdateStatus_isValid_def)
  have ok: "form_ok example_ticket status_form_init"
    by (simp add: form_ok_def status_form_init_def)
  have d: "\<forall>evs. Some (JString ''Assigned'')
          \<notin> set (map requested_status
                  (snd (form_run example_employee example_ticket status_form_init evs)))"
  proof
    fix evs
    show "Some (JString ''Assigned'')
          \<notin> set (map requested_status
                  (snd (form_run example_employee example_ticket status_form_init evs)))"
    proof
      assume "Some (JString ''Assigned'')
          \<in> set (map requested_status
                  (snd (form_run example_employee example_ticket status_form_init evs)))"
      then obtain r where
        r: "r \<in> set (snd (form_run example_employee example_ticket status_form_init evs))"
        and q: "requested_status r = Some (JString ''Assigned'')"
        by auto
      from form_run_request [OF ok r] obtain s n
        where s: "s \<in> set (availableStatuses example_ticket)"
          and e: "r = updateTicketStatus (ticket_id example_ticket) s n"
        by blast
      from q e have "s = ''Assigned''" by simp
      with s a show False by simp
    qed
  qed
  from st cu ta av a b c d show ?thesis by blast
qed

text \<open>
  Claim C4, amended. The status-update action is offered exactly when \<open>canUpdateStatus\<close>
  holds (an employee looking at an open ticket assigned to them); for any other user or
  ticket the form issues no request at all. Where it is offered, its targets are exactly the
  members of \<open>In Progress, Waiting, On Hold, Assigned\<close> other than the ticket's current
  status: every request the form issues, over any sequence of user actions, is the
  status-update request of this ticket for such a status, and each such status can be asked
  for. \<open>Closed\<close> and \<open>New\<close> are never targets, and neither is the current status.
\<close>

theorem status_update_targets:
  "set (availableStatuses t) = {''In Progress'', ''Waiting'', ''On Hold'', ''Assigned''} - {ticket_status t}
   \<and> (r \<in> set (snd (form_run u t status_form_init evs)) \<longrightarrow>
        canUpdateStatus u t
        \<and> (\<exists>s n. s \<in> set (availableStatuses t) \<and> r = updateTicketStatus (ticket_id t) s n
                 \<and> requested_status r = Some (JString s)))
   \<and> (canUpdateStatus u t \<and> s \<in> set (availableStatuses t) \<longrightarrow>
        map requested_status
          (snd (form_run u t status_form_init [HandleOpen, SelectStatus s, SetNote [111, 107], Submit]))
        = [Some (JString s)])
   \<and> (\<not> canUpdateStatus u t \<longrightarrow> snd (form_run u t status_form_init evs) = [])
   \<and> ''Closed'' \<notin> set (availableStatuses t) \<and> ''New'' \<notin> set (availableStatuses t)
   \<and> ticket_status t \<notin> set (availableStatuses t)"
proof -
  have a: "set (availableStatuses t)
      = {''In Progress'', ''Waiting'', ''On Hold'', ''Assigned''} - {ticket_status t}"
    using availableStatuses_set [of t] by (simp add: UPDATABLE_STATUSES_def)
  have ok: "form_ok t status_form_init"
    by (simp add: form_ok_def status_form_init_def)
  have b: "r \<in> set (snd (form_run u t status_form_init evs)) \<longrightarrow>
        canUpdateStatus u t
        \<and> (\<exists>s n. s \<in> set (availableStatuses t) \<and> r = updateTicketStatus (ticket_id t) s n
                 \<and> requested_status r = Some (JString s))"
  proof
    assume m: "r \<in> set (snd (form_run u t status_form_init evs))"
    from form_run_request [OF ok m] obtain s n
      where cu: "canUpdateStatus u t" and s: "s \<in> set (availableStatuses t)"
        and e: "r = updateTicketStatus (ticket_id t) s n"
      by blast
    from e have q: "requested_status r = Some (JString s)" by simp
    from cu s e q show "canUpdateStatus u t
        \<and> (\<exists>s n. s \<in> set (availableStatuses t) \<and> r = updateTicketStatus (ticket_id t) s n
                 \<and> requested_status r = Some (JString s))"
      by blast
  qed
  have nw: "trim [111, 107] \<noteq> []"
    by (simp add: example_note)
  have c: "canUpdateStatus u t \<and> s \<in> set (availableStatuses t) \<longrightarrow>
        map requested_status
          (snd (form_run u t status_form_init [HandleOpen, SelectStatus s, SetNote [111, 107], Submit]))
        = [Some (JString s)]"
    using form_run_reaches [of u t s "[111, 107]", OF _ _ nw] by simp
  have n: "\<not> canUpdateStatus u t \<longrightarrow> snd (form_run u t status_form_init evs) = []"
    by (simp add: form_run_not_rendered)
  have d: "''Closed'' \<notin> set (availableStatuses t) \<and> ''New'' \<notin> set (availableStatuses t)
      \<and> ticket_status t \<notin> set (availableStatuses t)"
    by (simp add: a)
  from a b c n d show ?thesis by blast
qed

theorem status_update_targets_witness:
  "canUpdateStatus example_employee example_ticket
   \<and> ''Waiting'' \<in> set (availableStatuses example_ticket)
   \<and> map requested_status (snd (form_run example_employee example_ticket status_form_init
        [HandleOpen, SelectStatus ''Waiting'', SetNote [111, 107], Submit]))
      = [Some (JString ''Waiting'')]
   \<and> updateTicketStatus ''t-1'' ''On Hold'' [111, 107]
       \<in> set (snd (form_run example_employee example_ticket status_form_init
           [HandleOpen, SelectStatus ''Assigned'', SelectStatus ''On Hold'', SetNote [111, 107],
            Submit]))
   \<and> (\<exists>s n. s \<in> set (availableStatuses example_ticket)
         \<and> updateTicketStatus ''t-1'' ''On Hold'' [111, 107]
             = updateTicketStatus (ticket_id example_ticket) s n
         \<and> requested_status (updateTicketStatus ''t-1'' ''On Hold'' [111, 107])
             = Some (JString s))
   \<and> \<not> canUpdateStatus example_employee (example_ticket \<lparr> is_closed := True \<rparr>)
   \<and> snd (form_run example_employee (example_ticket \<lparr> is_closed := True \<rparr>) status_form_init
        [HandleOpen, SelectStatus ''Waiting'', SetNote [111, 107], Submit]) = []
   \<and> \<not> canUpdateStatus example_employee (example_ticket \<lparr> assigned_to := None \<rparr>)
   \<and> snd (form_run example_employee (example_ticket \<lparr> assigned_to := None \<rparr>) status_form_init
        [HandleOpen, SelectStatus ''Waiting'', SetNote [111, 107], Submit]) = []"
proof -
  note av = example_availableStatuses
  note cu = example_canUpdateStatus
  have m: "''Waiting'' \<in> set (availableStatuses example_ticket)"
    by (simp add: av)
  have tid: "ticket_id example_ticket = ''t-1''"
    by (simp add: example_ticket_def)
  have r: "updateTicketStatus ''t-1'' ''On Hold'' [111, 107]
       \<in> set (snd (form_run example_employee example_ticket status_form_init
           [HandleOpen, SelectStatus ''Assigned'', SelectStatus ''On Hold'', SetNote [111, 107],
            Submit]))"
    by (simp add: form_step_def cu av example_note tid status_form_init_def handleOpen_def
        UpdateStatus_submit_def MutationForm_handleSubmit_def UpdateStatus_isValid_def)
  have nc: "\<not> canUpdateStatus example_employee (example_ticket \<lparr> is_closed := True \<rparr>)"
    by (simp add: canUpdateStatus_def)
  have na: "\<not> canUpdateStatus example_employee (example_ticket \<lparr> assigned_to := None \<rparr>)"
    by (simp add: canUpdateStatus_def isAssignedToMe_def example_employee_def)
  let ?q = "updateTicketStatus ''t-1'' ''On Hold'' [111, 107]"
  let ?evs = "[HandleOpen, SelectStatus ''Assigned'', SelectStatus ''On Hold'',
      SetNote [111, 107], Submit]"
  let ?evs' = "[HandleOpen, SelectStatus ''Waiting'', SetNote [111, 107], Submit]"
  from cu m status_update_targets [of example_ticket ?q example_employee ?evs "''Waiting''"]
  have w1: "map requested_status (snd (form_run example_employee example_ticket
        status_form_init [HandleOpen, SelectStatus ''Waiting'', SetNote [111, 107], Submit]))
      = [Some (JString ''Waiting'')]"
    by (simp only: simp_thms)
  from r status_update_targets [of example_ticket ?q example_employee ?evs "''Waiting''"]
  have w2: "\<exists>s n. s \<in> set (availableStatuses example_ticket)
         \<and> ?q = updateTicketStatus (ticket_id example_ticket) s n
         \<and> requested_status ?q = Some (JString s)"
    by blast
  from nc status_update_targets [of "example_ticket \<lparr> is_closed := True \<rparr>" ?q
      example_employee ?evs' "''Waiting''"]
  have w3: "snd (form_run example_employee (example_ticket \<lparr> is_closed := True \<rparr>)
        status_form_init ?evs') = []"
    by (simp only: simp_thms)
  from na status_update_targets [of "example_ticket \<lparr> assigned_to := None \<rparr>" ?q
      example_employee ?evs' "''Waiting''"]
  have w4: "snd (form_run example_employee (example_ticket \<lparr> assigned_to := None \<rparr>)
        status_form_init ?evs') = []"
    by (simp only: simp_thms)
  from cu m w1 r w2 nc w3 na w4 show ?thesis
    by (simp only: simp_thms)
qed


section \<open>Properties of the note check\<close>





section \<open>The single-flight invariant of the client\<close>

lemma run_Nil [simp]: "run [] s = s"
  by (simp add: run_def)

lemma run_Cons [simp]: "run (e # es) s = run es (step e s)"
  by (simp add: run_def)


lemma single_flight_send [simp]: "single_flight (send cfg s) = single_flight s"
  by (simp add: single_flight_def send_def)

lemma single_flight_reject [simp]: "single_flight (reject cfg e s) = single_flight s"
  by (simp add: single_flight_def reject_def)

lemma single_flight_retryRequest [simp]: "single_flight (retryRequest cfg s) = single_flight s"
  by (simp add: single_flight_def retryRequest_def)

lemma single_flight_tokens [simp]: "single_flight (s \<lparr> tokens := t \<rparr>) = single_flight s"
  by (simp add: single_flight_def)

lemma single_flight_entering [simp]: "single_flight (s \<lparr> entering := t \<rparr>) = single_flight s"
  by (simp add: single_flight_def)

lemma single_flight_sent [simp]: "single_flight (s \<lparr> sent := t \<rparr>) = single_flight s"
  by (simp add: single_flight_def)

lemma single_flight_resolved [simp]: "single_flight (s \<lparr> resolved := t \<rparr>) = single_flight s"
  by (simp add: single_flight_def)

lemma single_flight_requireRefresh:
  "single_flight s \<Longrightarrow> single_flight (requireRefresh w s)"
  by (auto simp: single_flight_def requireRefresh_def startRefresh_def Let_def)

lemma requestInterceptor_cases:
  "requestInterceptor now cfg s =
     (if isAuthEndpoint_request (cfg_url cfg) then send cfg s
      else if truthy_str (getAccessToken (tokens s)) \<and> isTokenExpiringSoon 60 now (tokens s)
      then requireRefresh (Proactive cfg) s
      else send (if truthy_str (getAccessToken (tokens s))
                 then cfg \<lparr> authorization := Some (bearer (the (getAccessToken (tokens s)))) \<rparr>
                 else cfg) s)"
  by (simp add: requestInterceptor_def requireRefresh_def Let_def)

lemma responseRejected_cases:
  "responseRejected call err s =
     (case err of
        JsError msg \<Rightarrow> reject call err s
      | AxiosError status originalRequest \<Rightarrow>
          if status \<noteq> Some 401 \<or> originalRequest = None then reject call err s
          else if isAuthEndpoint_response (cfg_url (the originalRequest)) then reject call err s
          else if retry (the originalRequest)
            then reject call err (s \<lparr> tokens := clearTokens (tokens s) \<rparr>)
          else requireRefresh (Reactive ((the originalRequest) \<lparr> retry := True \<rparr>)) s)"
  by (simp add: responseRejected_def requireRefresh_def Let_def split: error.splits)

lemma single_flight_requestInterceptor:
  "single_flight s \<Longrightarrow> single_flight (requestInterceptor now cfg s)"
  by (simp add: requestInterceptor_cases single_flight_requireRefresh)

lemma single_flight_responseRejected:
  "single_flight s \<Longrightarrow> single_flight (responseRejected call err s)"
  by (simp add: responseRejected_cases single_flight_requireRefresh split: error.splits)

lemma single_flight_wake: "single_flight s \<Longrightarrow> single_flight (wake ws s)"
  by (cases "(ws, s)" rule: wake.cases) (simp_all add: single_flight_responseRejected)

lemma single_flight_wakeAll: "single_flight s \<Longrightarrow> single_flight (wakeAll ws s)"
  unfolding wakeAll_def
  by (induction ws arbitrary: s) (simp_all add: single_flight_wake)

lemma single_flight_refreshResponse:
  "single_flight s \<Longrightarrow> single_flight (refreshResponse i r now s)"
  by (auto simp: refreshResponse_def single_flight_def split: prod.splits refresh_call.splits
      refresh_response.splits)

lemma single_flight_idle:
  "\<not> isRefreshing s \<Longrightarrow> inflight s = [] \<Longrightarrow> refreshQueue s = [] \<Longrightarrow> single_flight s"
  by (simp add: single_flight_def)

lemma single_flight_resume:
  assumes "single_flight s"
  shows "single_flight (resume i s)"
proof (cases "i < length (inflight s)")
  case False
  then show ?thesis using assms by (simp add: resume_def)
next
  case True
  with assms have r: "isRefreshing s" and l: "length (inflight s) = 1" and i0: "i = 0"
    by (auto simp: single_flight_def split: if_splits)
  then have e: "take i (inflight s) @ drop (Suc i) (inflight s) = []" by simp
  obtain w c where wc: "inflight s ! i = (w, c)" by (cases "inflight s ! i")
  show ?thesis
  proof (cases c)
    case (Posted rt)
    with True wc assms show ?thesis by (simp add: resume_def)
  next
    case (Settled out)
    show ?thesis
    proof (cases w)
      case (Proactive cfg)
      show ?thesis
      proof (cases out)
        case (Inl err)
        with True wc Settled Proactive e show ?thesis
          by (simp add: resume_def processQueue_def Let_def single_flight_wakeAll
              single_flight_responseRejected single_flight_idle)
      next
        case (Inr token)
        with True wc Settled Proactive e show ?thesis
          by (simp add: resume_def processQueue_def Let_def single_flight_wakeAll
              single_flight_idle)
      qed
    next
      case (Reactive orig)
      show ?thesis
      proof (cases out)
        case (Inl err)
        with True wc Settled Reactive e show ?thesis
          by (simp add: resume_def processQueue_def Let_def single_flight_wakeAll
              single_flight_idle reject_def)
      next
        case (Inr token)
        with True wc Settled Reactive e show ?thesis
          by (simp add: resume_def processQueue_def Let_def single_flight_wakeAll
              single_flight_idle retryRequest_def)
      qed
    qed
  qed
qed

lemma single_flight_step: "single_flight s \<Longrightarrow> single_flight (step e s)"
  by (cases e)
     (simp_all add: single_flight_requestInterceptor single_flight_responseRejected
        single_flight_refreshResponse single_flight_resume Let_def split: response.splits)

lemma single_flight_run: "single_flight s \<Longrightarrow> single_flight (run evs s)"
  unfolding run_def
  by (induction evs arbitrary: s) (simp_all add: single_flight_step)

lemma single_flight_initial: "single_flight (initial ts base)"
  by (simp add: single_flight_def initial_def)


section \<open>The retry invariant of the client\<close>

lemma cfg_ok_authorization [simp]: "cfg_ok (c \<lparr> authorization := a \<rparr>) = cfg_ok c"
  by (simp add: cfg_ok_def)

lemma bounded_retry_send: "bounded_retry s \<Longrightarrow> cfg_ok c \<Longrightarrow> bounded_retry (send c s)"
  by (simp add: bounded_retry_def send_def)

lemma bounded_retry_reject: "bounded_retry s \<Longrightarrow> cfg_ok c \<Longrightarrow> bounded_retry (reject c e s)"
  by (simp add: bounded_retry_def reject_def)

lemma bounded_retry_retryRequest:
  "bounded_retry s \<Longrightarrow> waiter_ok (Reactive c) \<Longrightarrow> bounded_retry (retryRequest c s)"
  by (simp add: bounded_retry_def retryRequest_def cfg_ok_def)

lemma bounded_retry_tokens [simp]: "bounded_retry (s \<lparr> tokens := t \<rparr>) = bounded_retry s"
  by (simp add: bounded_retry_def)

lemma bounded_retry_isRefreshing [simp]:
  "bounded_retry (s \<lparr> isRefreshing := b \<rparr>) = bounded_retry s"
  by (simp add: bounded_retry_def)

lemma bounded_retry_requireRefresh:
  "bounded_retry s \<Longrightarrow> waiter_ok w \<Longrightarrow> bounded_retry (requireRefresh w s)"
  by (simp add: bounded_retry_def requireRefresh_def startRefresh_def Let_def)

lemma bounded_retry_requestInterceptor:
  "bounded_retry s \<Longrightarrow> cfg_ok cfg \<Longrightarrow> bounded_retry (requestInterceptor now cfg s)"
  by (simp add: requestInterceptor_cases bounded_retry_requireRefresh bounded_retry_send)

lemma waiter_ok_Reactive_cfg_ok: "waiter_ok (Reactive c) \<Longrightarrow> cfg_ok c"
  by (simp add: cfg_ok_def)

lemma bounded_retry_responseRejected:
  "bounded_retry s \<Longrightarrow> cfg_ok call \<Longrightarrow> error_ok err \<Longrightarrow>
   bounded_retry (responseRejected call err s)"
  by (cases err rule: error_ok.cases)
     (auto simp: responseRejected_cases bounded_retry_requireRefresh bounded_retry_reject
        cfg_ok_def)

lemma bounded_retry_wake:
  "bounded_retry s \<Longrightarrow> waiter_ok (fst ws) \<Longrightarrow> settlement_ok (snd ws) \<Longrightarrow>
   bounded_retry (wake ws s)"
  by (cases "(ws, s)" rule: wake.cases)
     (simp_all add: bounded_retry_responseRejected bounded_retry_retryRequest
        bounded_retry_send bounded_retry_reject waiter_ok_Reactive_cfg_ok)

lemma bounded_retry_wakeAll:
  "bounded_retry s \<Longrightarrow> \<forall>p \<in> set ws. waiter_ok (fst p) \<and> settlement_ok (snd p) \<Longrightarrow>
   bounded_retry (wakeAll ws s)"
  unfolding wakeAll_def
  by (induction ws arbitrary: s) (simp_all add: bounded_retry_wake)

lemma cfg_ok_refreshConfig [simp]: "cfg_ok (refreshConfig s)"
  by (simp add: cfg_ok_def refreshConfig_def)

lemma bounded_retry_refreshResponse:
  assumes "bounded_retry s"
  shows "bounded_retry (refreshResponse i r now s)"
proof (cases "i < length (inflight s)")
  case False
  with assms show ?thesis by (simp add: refreshResponse_def)
next
  case True
  obtain w c where wc: "inflight s ! i = (w, c)" by (cases "inflight s ! i")
  from True have mem: "inflight s ! i \<in> set (inflight s)" by simp
  with assms wc have wok: "waiter_ok w" by (auto simp: bounded_retry_def)
  have upd: "\<And>c'. call_ok c' \<Longrightarrow>
      \<forall>p \<in> set ((inflight s) [i := (w, c')]). waiter_ok (fst p) \<and> call_ok (snd p)"
  proof
    fix c' p assume c': "call_ok c'" and p: "p \<in> set ((inflight s) [i := (w, c')])"
    then have "p = (w, c') \<or> p \<in> set (inflight s)"
      using set_update_subset_insert [of "inflight s" i "(w, c')"] by auto
    with assms wok c' show "waiter_ok (fst p) \<and> call_ok (snd p)"
      by (auto simp: bounded_retry_def)
  qed
  show ?thesis
  proof (cases c)
    case (Settled out)
    with True wc assms show ?thesis by (simp add: refreshResponse_def)
  next
    case (Posted rt)
    show ?thesis
    proof (cases r)
      case (RefreshOk tok ex)
      have "call_ok (Settled (Inr tok))" by simp
      from upd [OF this] assms True wc Posted RefreshOk show ?thesis
        by (simp add: refreshResponse_def bounded_retry_def)
    next
      case (RefreshFailed st)
      have "call_ok (Settled (Inl (AxiosError st (Some (refreshConfig s)))))" by simp
      from upd [OF this] assms True wc Posted RefreshFailed show ?thesis
        by (simp add: refreshResponse_def bounded_retry_def)
    qed
  qed
qed

lemma processQueue_state: "fst (processQueue err token s) = s \<lparr> refreshQueue := [] \<rparr>"
  by (simp add: processQueue_def)

lemma processQueue_settled:
  "snd (processQueue err token s) =
     (case err of
        Some e \<Rightarrow> map (\<lambda>p. (p, RejectWith e)) (refreshQueue s)
      | None \<Rightarrow> if truthy_str token
                then map (\<lambda>p. (p, ResolveWith (the token))) (refreshQueue s)
                else [])"
  by (simp add: processQueue_def List.map_filter_def comp_def split: option.splits)

lemma processQueue_settled_ok:
  assumes "\<forall>w \<in> set (refreshQueue s). waiter_ok w" and "case err of None \<Rightarrow> True | Some e \<Rightarrow> error_ok e"
  shows "\<forall>p \<in> set (snd (processQueue err token s)). waiter_ok (fst p) \<and> settlement_ok (snd p)"
  using assms
  by (auto simp: processQueue_settled split: if_splits option.splits)

lemma bounded_retry_clear_queue:
  "bounded_retry s \<Longrightarrow> bounded_retry (s \<lparr> refreshQueue := [] \<rparr>)"
  by (simp add: bounded_retry_def)

lemma bounded_retry_drop_inflight:
  "bounded_retry s \<Longrightarrow>
   bounded_retry (s \<lparr> inflight := take i (inflight s) @ drop (Suc i) (inflight s) \<rparr>)"
  by (auto simp: bounded_retry_def dest: in_set_takeD in_set_dropD)

lemma bounded_retry_resume:
  assumes "bounded_retry s"
  shows "bounded_retry (resume i s)"
proof (cases "i < length (inflight s)")
  case False
  then show ?thesis using assms by (simp add: resume_def)
next
  case True
  obtain w c where wc: "inflight s ! i = (w, c)" by (cases "inflight s ! i")
  from True have mem: "inflight s ! i \<in> set (inflight s)" by simp
  with assms wc have wok: "waiter_ok w" and cok: "call_ok c" by (auto simp: bounded_retry_def)
  let ?s1 = "s \<lparr> inflight := take i (inflight s) @ drop (Suc i) (inflight s) \<rparr>"
  have b1: "bounded_retry ?s1" using assms by (rule bounded_retry_drop_inflight)
  have q1: "\<forall>w \<in> set (refreshQueue ?s1). waiter_ok w" using assms by (simp add: bounded_retry_def)
  have b2: "bounded_retry (?s1 \<lparr> refreshQueue := [] \<rparr>)"
    using b1 by (rule bounded_retry_clear_queue)
  show ?thesis
  proof (cases c)
    case (Posted rt)
    with True wc assms show ?thesis by (simp add: resume_def)
  next
    case (Settled out)
    show ?thesis
    proof (cases out)
      case (Inl err)
      with cok Settled have eok: "error_ok err" by simp
      then have so: "\<forall>p \<in> set (snd (processQueue (Some err) None ?s1)).
          waiter_ok (fst p) \<and> settlement_ok (snd p)"
        using processQueue_settled_ok [OF q1, of "Some err" None] by simp
      show ?thesis
      proof (cases w)
        case (Proactive cfg)
        with wok have "cfg_ok cfg" by simp
        with b2 eok have "bounded_retry (responseRejected cfg err
            (?s1 \<lparr> refreshQueue := [], isRefreshing := False \<rparr>))"
          by (simp add: bounded_retry_responseRejected)
        with so True wc Settled Inl Proactive show ?thesis
          by (simp add: resume_def Let_def split_beta processQueue_state bounded_retry_wakeAll)
      next
        case (Reactive orig)
        with wok have "cfg_ok orig" by (simp add: waiter_ok_Reactive_cfg_ok)
        with b2 have "bounded_retry (reject orig err
            (?s1 \<lparr> refreshQueue := [], tokens := clearTokens (tokens s) \<rparr>))"
          by (simp add: bounded_retry_reject)
        with so True wc Settled Inl Reactive show ?thesis
          by (simp add: resume_def Let_def split_beta processQueue_state bounded_retry_wakeAll)
      qed
    next
      case (Inr tok)
      have so: "\<forall>p \<in> set (snd (processQueue None (Some tok) ?s1)).
          waiter_ok (fst p) \<and> settlement_ok (snd p)"
        using processQueue_settled_ok [OF q1, of None "Some tok"] by simp
      show ?thesis
      proof (cases w)
        case (Proactive cfg)
        with wok have "cfg_ok cfg" by simp
        with b2 have "bounded_retry (send (if tok \<noteq> [] then cfg \<lparr> authorization := Some (bearer tok) \<rparr> else cfg)
            (?s1 \<lparr> refreshQueue := [], isRefreshing := False \<rparr>))"
          by (simp add: bounded_retry_send)
        with so True wc Settled Inr Proactive show ?thesis
          by (simp add: resume_def Let_def split_beta processQueue_state bounded_retry_wakeAll)
      next
        case (Reactive orig)
        with wok have "waiter_ok (Reactive (orig \<lparr> authorization := Some (bearer tok) \<rparr>))" by simp
        with b2 have "bounded_retry (retryRequest (orig \<lparr> authorization := Some (bearer tok) \<rparr>)
            (?s1 \<lparr> refreshQueue := [] \<rparr>))"
          by (simp add: bounded_retry_retryRequest)
        with so True wc Settled Inr Reactive show ?thesis
          by (simp add: resume_def Let_def split_beta processQueue_state bounded_retry_wakeAll)
      qed
    qed
  qed
qed

lemma bounded_retry_step: "bounded_retry s \<Longrightarrow> bounded_retry (step e s)"
proof (cases e)
  case (NewCall u)
  assume "bounded_retry s"
  with NewCall show ?thesis by (simp add: bounded_retry_def newConfig_def cfg_ok_def)
next
  case (Enter cfg now)
  assume b: "bounded_retry s"
  show ?thesis
  proof (cases "cfg \<in> set (entering s)")
    case False
    with b Enter show ?thesis by simp
  next
    case True
    with b have ok: "cfg_ok cfg" by (simp add: bounded_retry_def)
    from b have "bounded_retry (s \<lparr> entering := remove1 cfg (entering s) \<rparr>)"
      by (auto simp: bounded_retry_def dest: notin_set_remove1)
    with ok True Enter show ?thesis by (simp add: bounded_retry_requestInterceptor)
  qed
next
  case (Respond cfg r)
  assume b: "bounded_retry s"
  show ?thesis
  proof (cases "cfg \<in> set (sent s)")
    case False
    with b Respond show ?thesis by simp
  next
    case True
    with b have ok: "cfg_ok cfg" by (simp add: bounded_retry_def)
    from b have b1: "bounded_retry (s \<lparr> sent := remove1 cfg (sent s) \<rparr>)"
      by (auto simp: bounded_retry_def dest: notin_set_remove1)
    show ?thesis
    proof (cases r)
      case Success
      with b1 ok True Respond show ?thesis by (simp add: bounded_retry_def)
    next
      case (Failure st)
      with b1 ok True Respond show ?thesis by (simp add: bounded_retry_responseRejected)
    qed
  qed
qed (simp_all add: bounded_retry_refreshResponse bounded_retry_resume)

lemma bounded_retry_run: "bounded_retry s \<Longrightarrow> bounded_retry (run evs s)"
  unfolding run_def
  by (induction evs arbitrary: s) (simp_all add: bounded_retry_step)

lemma bounded_retry_initial: "bounded_retry (initial ts base)"
  by (simp add: bounded_retry_def initial_def)


section \<open>Bounded retry\<close>

lemma cleared_clearTokens [simp]: "cleared (clearTokens ts)"
  by (simp add: cleared_def clearTokens_def getRefreshToken_def Let_def)

lemma cfg_ok_resends: "cfg_ok c \<Longrightarrow> resends c \<le> Suc 0"
  by (simp add: cfg_ok_def split: if_splits)

lemma waiter_ok_resends: "waiter_ok w \<Longrightarrow> resends (waiter_config w) \<le> Suc 0"
  by (cases w) (simp_all add: cfg_ok_resends)

lemma reachable_bounded_retry: "bounded_retry (run evs (initial ts base))"
  by (simp add: bounded_retry_run bounded_retry_initial)

lemmas client_eval =
  run_def initial_def newConfig_def requestInterceptor_def responseRejected_def
  startRefresh_def refreshResponse_def resume_def processQueue_def wakeAll_def
  send_def reject_def retryRequest_def bearer_def refreshConfig_def
  isAuthEndpoint_request_def isAuthEndpoint_response_def
  getAccessToken_def setAccessToken_def getRefreshToken_def setRefreshToken_def
  clearTokens_def isTokenExpiringSoon_def truthy_str_def Let_def

lemmas example_eval =
  example_tokens_def example_call_def example_call2_def example_sent_def example_sent2_def
  example_retried_def


lemma example_no_refresh_token_eq:
  "example_no_refresh_token =
     \<lparr> tokens = example_tokens \<lparr> persistedRefreshToken := None \<rparr>, baseURL = ''http://h'',
       isRefreshing = False, refreshQueue = [], inflight = [], entering = [example_call],
       sent = [], resolved = [], rejected = [], refreshPosts = [] \<rparr>"
  by (simp add: example_no_refresh_token_def example_eval client_eval)

lemma example_pending_eq:
  "example_pending =
     \<lparr> tokens = example_tokens, baseURL = ''http://h'', isRefreshing = False,
       refreshQueue = [], inflight = [], entering = [example_call], sent = [],
       resolved = [], rejected = [], refreshPosts = [] \<rparr>"
  by (simp add: example_pending_def example_eval client_eval)

lemma example_refreshing_eq:
  "example_refreshing =
     \<lparr> tokens = example_tokens, baseURL = ''http://h'', isRefreshing = True,
       refreshQueue = [], inflight = [(Proactive example_call, Posted ''r1'')],
       entering = [example_call2], sent = [],
       resolved = [], rejected = [], refreshPosts = [''r1''] \<rparr>"
  by (simp add: example_refreshing_def example_eval client_eval)


lemma example_run:
  "run example_events (initial example_tokens ''http://h'') =
     \<lparr> tokens = \<lparr> accessToken = Some ''new'', tokenExpiresAt = Some 3605000,
                  storageAvailable = True, persistedRefreshToken = Some ''r1'' \<rparr>,
       baseURL = ''http://h'', isRefreshing = False, refreshQueue = [], inflight = [],
       entering = [], sent = [example_retried], resolved = [], rejected = [],
       refreshPosts = [''r1''] \<rparr>"
  by (simp add: example_events_def example_tokens_def example_call_def example_retried_def
      client_eval)

text \<open>
  Claim C2. In every state the client can reach, whatever the order of calls, responses,
  refresh results and writes to the token store, no request has been handed back to the
  client more than once (this holds for the requests waiting to enter, on the network,
  settled, queued behind a refresh or awaiting one). And when a 401 arrives for a request
  whose \<open>_retry\<close> flag is already set, the response interceptor clears the token store and
  rejects the call with that error: the request does not re-enter the pipeline and no
  refresh is started.
\<close>

theorem retry_at_most_once:
  "s = run evs (initial ts base) \<Longrightarrow>
     (c \<in> set (entering s) \<union> set (sent s) \<union> set (resolved s) \<union> fst ` set (rejected s)
        \<longrightarrow> resends c \<le> 1)
     \<and> (w \<in> set (refreshQueue s) \<union> fst ` set (inflight s) \<longrightarrow> resends (waiter_config w) \<le> 1)
     \<and> (cfg \<in> set (sent s) \<and> retry cfg \<longrightarrow>
          step (Respond cfg (Failure (Some 401))) s
            = s \<lparr> tokens := clearTokens (tokens s), sent := remove1 cfg (sent s),
                  rejected := rejected s @ [(cfg, AxiosError (Some 401) (Some cfg))] \<rparr>
          \<and> cleared (tokens (step (Respond cfg (Failure (Some 401))) s))
          \<and> entering (step (Respond cfg (Failure (Some 401))) s) = entering s
          \<and> inflight (step (Respond cfg (Failure (Some 401))) s) = inflight s
          \<and> refreshPosts (step (Respond cfg (Failure (Some 401))) s) = refreshPosts s)"
proof -
  assume r: "s = run evs (initial ts base)"
  then have b: "bounded_retry s" by (simp add: reachable_bounded_retry)
  have a1: "c \<in> set (entering s) \<union> set (sent s) \<union> set (resolved s) \<union> fst ` set (rejected s)
        \<longrightarrow> resends c \<le> 1"
    using b by (auto simp: bounded_retry_def intro: cfg_ok_resends)
  have a2: "w \<in> set (refreshQueue s) \<union> fst ` set (inflight s) \<longrightarrow> resends (waiter_config w) \<le> 1"
    using b by (auto simp: bounded_retry_def intro: waiter_ok_resends)
  have a3: "cfg \<in> set (sent s) \<and> retry cfg \<longrightarrow>
          step (Respond cfg (Failure (Some 401))) s
            = s \<lparr> tokens := clearTokens (tokens s), sent := remove1 cfg (sent s),
                  rejected := rejected s @ [(cfg, AxiosError (Some 401) (Some cfg))] \<rparr>"
  proof
    assume h: "cfg \<in> set (sent s) \<and> retry cfg"
    with b have "cfg_ok cfg" by (simp add: bounded_retry_def)
    with h have na: "\<not> isAuthEndpoint_response (cfg_url cfg)" by (simp add: cfg_ok_def)
    with h show "step (Respond cfg (Failure (Some 401))) s
            = s \<lparr> tokens := clearTokens (tokens s), sent := remove1 cfg (sent s),
                  rejected := rejected s @ [(cfg, AxiosError (Some 401) (Some cfg))] \<rparr>"
      by (simp add: responseRejected_cases reject_def)
  qed
  have a4: "cfg \<in> set (sent s) \<and> retry cfg \<longrightarrow>
          cleared (tokens (step (Respond cfg (Failure (Some 401))) s))
          \<and> entering (step (Respond cfg (Failure (Some 401))) s) = entering s
          \<and> inflight (step (Respond cfg (Failure (Some 401))) s) = inflight s
          \<and> refreshPosts (step (Respond cfg (Failure (Some 401))) s) = refreshPosts s"
  proof
    assume h: "cfg \<in> set (sent s) \<and> retry cfg"
    with a3 have e: "step (Respond cfg (Failure (Some 401))) s
            = s \<lparr> tokens := clearTokens (tokens s), sent := remove1 cfg (sent s),
                  rejected := rejected s @ [(cfg, AxiosError (Some 401) (Some cfg))] \<rparr>" by blast
    show "cleared (tokens (step (Respond cfg (Failure (Some 401))) s))
          \<and> entering (step (Respond cfg (Failure (Some 401))) s) = entering s
          \<and> inflight (step (Respond cfg (Failure (Some 401))) s) = inflight s
          \<and> refreshPosts (step (Respond cfg (Failure (Some 401))) s) = refreshPosts s"
      by (simp only: e) simp
  qed
  from a1 a2 a3 a4 show ?thesis by blast
qed

theorem retry_at_most_once_witness:
  "example_retried \<in> set (sent (run example_events (initial example_tokens ''http://h'')))
   \<and> retry example_retried
   \<and> resends example_retried \<le> 1
   \<and> cleared (tokens (step (Respond example_retried (Failure (Some 401)))
        (run example_events (initial example_tokens ''http://h''))))
   \<and> entering (step (Respond example_retried (Failure (Some 401)))
        (run example_events (initial example_tokens ''http://h''))) = []
   \<and> rejected (step (Respond example_retried (Failure (Some 401)))
        (run example_events (initial example_tokens ''http://h'')))
      = [(example_retried, AxiosError (Some 401) (Some example_retried))]
   \<and> Proactive example_call \<in> fst ` set (inflight example_refreshing)
   \<and> resends (waiter_config (Proactive example_call)) \<le> 1"
proof -
  let ?s = "run example_events (initial example_tokens ''http://h'')"
  have m: "example_retried \<in> set (sent ?s)" by (simp add: example_run)
  have r: "retry example_retried" by (simp add: example_retried_def)
  have e: "entering ?s = []" and j: "rejected ?s = []" by (simp_all add: example_run)
  from m r retry_at_most_once [OF refl, of example_retried example_events example_tokens
      "''http://h''" "Proactive example_retried" example_retried]
  have t: "resends example_retried \<le> 1
     \<and> step (Respond example_retried (Failure (Some 401))) ?s
            = ?s \<lparr> tokens := clearTokens (tokens ?s), sent := remove1 example_retried (sent ?s),
                  rejected := rejected ?s @ [(example_retried, AxiosError (Some 401) (Some example_retried))] \<rparr>
     \<and> cleared (tokens (step (Respond example_retried (Failure (Some 401))) ?s))
     \<and> entering (step (Respond example_retried (Failure (Some 401))) ?s) = entering ?s"
    by blast
  then have rj: "rejected (step (Respond example_retried (Failure (Some 401))) ?s)
      = [(example_retried, AxiosError (Some 401) (Some example_retried))]"
    using j by simp
  have w: "Proactive example_call \<in> fst ` set (inflight example_refreshing)"
    by (simp add: example_refreshing_eq)
  then have "Proactive example_call
      \<in> set (refreshQueue example_refreshing) \<union> fst ` set (inflight example_refreshing)"
    by simp
  with retry_at_most_once [OF example_refreshing_def, of example_call "Proactive example_call"
      example_call]
  have wr: "resends (waiter_config (Proactive example_call)) \<le> 1" by blast
  from m r t e rj w wr show ?thesis by simp
qed


section \<open>Auth endpoints\<close>

lemma js_includes_append: "js_includes b pat \<Longrightarrow> js_includes (a @ b) pat"
  by (induction a) (auto simp: neq_Nil_conv)

lemma isAuthEndpoint_request_response:
  "isAuthEndpoint_request u \<Longrightarrow> isAuthEndpoint_response u"
  by (auto simp: isAuthEndpoint_request_def isAuthEndpoint_response_def split: option.splits)

lemma refreshConfig_auth: "isAuthEndpoint_response (cfg_url (refreshConfig s))"
proof -
  have "js_includes ''/api/auth/refresh/'' ''/api/auth/refresh''" by simp
  then have "js_includes (baseURL s @ ''/api/auth/refresh/'') ''/api/auth/refresh''"
    by (rule js_includes_append)
  then show ?thesis by (simp add: isAuthEndpoint_response_def refreshConfig_def)
qed

text \<open>
  Claim C7. For a request whose URL contains the login or the refresh path, the request
  interceptor returns the config as it is: no token is attached and no refresh is started
  or awaited, whatever the token store holds. An error response to such a request, also a
  401, is rejected as it is by the response interceptor: no retry, no refresh, no change of
  the store. This covers the error of the refresh POST itself, which reaches the response
  interceptor when a request interceptor rethrows it.
\<close>

theorem auth_endpoints_never_refresh:
  "cfg_url cfg = Some u \<and> (js_includes u ''/api/auth/login'' \<or> js_includes u ''/api/auth/refresh'')
   \<longrightarrow>
     requestInterceptor now cfg s = send cfg s
     \<and> responseRejected call (AxiosError status (Some cfg)) s
         = reject call (AxiosError status (Some cfg)) s
     \<and> (cfg \<in> set (entering s) \<longrightarrow>
          step (Enter cfg now) s = s \<lparr> entering := remove1 cfg (entering s), sent := sent s @ [cfg] \<rparr>)
     \<and> (cfg \<in> set (sent s) \<longrightarrow>
          step (Respond cfg (Failure status)) s
            = s \<lparr> sent := remove1 cfg (sent s),
                  rejected := rejected s @ [(cfg, AxiosError status (Some cfg))] \<rparr>)"
proof
  assume h: "cfg_url cfg = Some u \<and> (js_includes u ''/api/auth/login'' \<or> js_includes u ''/api/auth/refresh'')"
  then have rq: "isAuthEndpoint_request (cfg_url cfg)"
    by (simp add: isAuthEndpoint_request_def)
  then have rs: "isAuthEndpoint_response (cfg_url cfg)"
    by (rule isAuthEndpoint_request_response)
  have a: "requestInterceptor now cfg s = send cfg s"
    using rq by (simp add: requestInterceptor_def)
  have b: "responseRejected call (AxiosError status (Some cfg)) s
         = reject call (AxiosError status (Some cfg)) s"
    using rs by (simp add: responseRejected_def)
  have c: "cfg \<in> set (entering s) \<longrightarrow>
          step (Enter cfg now) s = s \<lparr> entering := remove1 cfg (entering s), sent := sent s @ [cfg] \<rparr>"
    using rq by (simp add: requestInterceptor_def send_def)
  have d: "cfg \<in> set (sent s) \<longrightarrow>
          step (Respond cfg (Failure status)) s
            = s \<lparr> sent := remove1 cfg (sent s),
                  rejected := rejected s @ [(cfg, AxiosError status (Some cfg))] \<rparr>"
    using rs by (simp add: responseRejected_def reject_def Let_def)
  from a b c d show "requestInterceptor now cfg s = send cfg s
     \<and> responseRejected call (AxiosError status (Some cfg)) s
         = reject call (AxiosError status (Some cfg)) s
     \<and> (cfg \<in> set (entering s) \<longrightarrow>
          step (Enter cfg now) s = s \<lparr> entering := remove1 cfg (entering s), sent := sent s @ [cfg] \<rparr>)
     \<and> (cfg \<in> set (sent s) \<longrightarrow>
          step (Respond cfg (Failure status)) s
            = s \<lparr> sent := remove1 cfg (sent s),
                  rejected := rejected s @ [(cfg, AxiosError status (Some cfg))] \<rparr>)"
    by blast
qed

text \<open>The scenario: a login call made through the client while the stored token is about
  to expire, and the refresh request itself coming back with a 401.\<close>

theorem auth_endpoints_never_refresh_witness:
  "js_includes ''/api/auth/login/'' ''/api/auth/login''
   \<and> \<not> isAuthEndpoint_request (cfg_url example_call)
   \<and> truthy_str (getAccessToken example_tokens) \<and> isTokenExpiringSoon 60 50000 example_tokens
   \<and> requestInterceptor 50000 (newConfig (Some ''/api/auth/login/'')) (initial example_tokens ''http://h'')
       = send (newConfig (Some ''/api/auth/login/'')) (initial example_tokens ''http://h'')
   \<and> responseRejected example_call
         (AxiosError (Some 401) (Some (refreshConfig (initial example_tokens ''http://h''))))
         (initial example_tokens ''http://h'')
       = reject example_call
         (AxiosError (Some 401) (Some (refreshConfig (initial example_tokens ''http://h''))))
         (initial example_tokens ''http://h'')
   \<and> run [NewCall (Some ''/api/auth/login/''), Enter (newConfig (Some ''/api/auth/login/'')) 50000,
           Respond (newConfig (Some ''/api/auth/login/'')) (Failure (Some 401))]
        (initial example_tokens ''http://h'')
       = (initial example_tokens ''http://h'')
           \<lparr> rejected := [(newConfig (Some ''/api/auth/login/''),
               AxiosError (Some 401) (Some (newConfig (Some ''/api/auth/login/''))))] \<rparr>"
proof -
  let ?s = "initial example_tokens ''http://h''"
  let ?c = "newConfig (Some ''/api/auth/login/'')"
  let ?s1 = "?s \<lparr> entering := [?c] \<rparr>"
  let ?s2 = "?s \<lparr> sent := [?c] \<rparr>"
  have i1: "js_includes ''/api/auth/login/'' ''/api/auth/login''" by simp
  have i2: "js_includes ''http://h/api/auth/refresh/'' ''/api/auth/refresh''" by simp
  have u1: "cfg_url ?c = Some ''/api/auth/login/''"
    by (simp add: newConfig_def)
  have u2: "cfg_url (refreshConfig ?s) = Some ''http://h/api/auth/refresh/''"
    by (simp add: refreshConfig_def initial_def)
  have n: "\<not> isAuthEndpoint_request (cfg_url example_call)"
    by (simp add: example_call_def newConfig_def isAuthEndpoint_request_def)
  have t: "truthy_str (getAccessToken example_tokens) \<and> isTokenExpiringSoon 60 50000 example_tokens"
    by (simp add: example_tokens_def truthy_str_def getAccessToken_def isTokenExpiringSoon_def)
  have m1: "?c \<in> set (entering ?s1)" and m2: "?c \<in> set (sent ?s2)" by simp_all
  have st1: "step (NewCall (Some ''/api/auth/login/'')) ?s = ?s1" by (simp add: initial_def)
  from i1 u1 m1 auth_endpoints_never_refresh [of ?c "''/api/auth/login/''" 50000 ?s1 ?c "Some 401"]
  have st2: "step (Enter ?c 50000) ?s1 = ?s2" by (simp add: initial_def)
  from i1 u1 m2 auth_endpoints_never_refresh [of ?c "''/api/auth/login/''" 50000 ?s2 ?c "Some 401"]
  have st3: "step (Respond ?c (Failure (Some 401))) ?s2
      = ?s \<lparr> rejected := [(?c, AxiosError (Some 401) (Some ?c))] \<rparr>"
    by (simp add: initial_def)
  have rn: "run [NewCall (Some ''/api/auth/login/''), Enter ?c 50000,
           Respond ?c (Failure (Some 401))] ?s
       = ?s \<lparr> rejected := [(?c, AxiosError (Some 401) (Some ?c))] \<rparr>"
    by (simp only: run_Cons run_Nil st1 st2 st3)
  from i1 i2 u1 u2 n t rn
    auth_endpoints_never_refresh [of ?c "''/api/auth/login/''" 50000 ?s example_call "Some 401"]
    auth_endpoints_never_refresh [of "refreshConfig ?s" "''http://h/api/auth/refresh/''"
      50000 ?s example_call "Some 401"]
  show ?thesis by blast
qed


section \<open>Refresh failure\<close>

text \<open>
  Claim C5 holds on every failure path but one. When the request interceptor starts a
  proactive refresh and no refresh token can be read, \<open>refreshAccessToken\<close> throws before
  its \<open>try\<close> block, so its \<open>catch\<close> does not clear the store, and the \<open>catch\<close> of the
  request interceptor only settles the queue and rethrows: the call is rejected and the
  access token and its expiry stay in the store. The response interceptor, on the same
  store, does clear it, because its \<open>catch\<close> calls \<open>clearTokens\<close> itself.
\<close>

theorem proactive_refresh_failure_keeps_tokens:
  "rejected (run [NewCall (Some ''/api/tickets/''), Enter example_call 50000, Resume 0]
       (initial (example_tokens \<lparr> persistedRefreshToken := None \<rparr>) ''http://h''))
     = [(example_call, JsError ''No refresh token available'')]
   \<and> tokens (run [NewCall (Some ''/api/tickets/''), Enter example_call 50000, Resume 0]
       (initial (example_tokens \<lparr> persistedRefreshToken := None \<rparr>) ''http://h''))
     = example_tokens \<lparr> persistedRefreshToken := None \<rparr>
   \<and> accessToken (tokens (run [NewCall (Some ''/api/tickets/''), Enter example_call 50000, Resume 0]
       (initial (example_tokens \<lparr> persistedRefreshToken := None \<rparr>) ''http://h''))) = Some ''old''
   \<and> \<not> cleared (tokens (run [NewCall (Some ''/api/tickets/''), Enter example_call 50000, Resume 0]
       (initial (example_tokens \<lparr> persistedRefreshToken := None \<rparr>) ''http://h'')))
   \<and> rejected (run [NewCall (Some ''/api/tickets/''), Enter example_call 0,
         Respond (example_call \<lparr> authorization := Some ''Bearer old'' \<rparr>) (Failure (Some 401)),
         Resume 0]
       (initial (example_tokens \<lparr> persistedRefreshToken := None \<rparr>) ''http://h''))
     = [(example_call \<lparr> authorization := Some ''Bearer old'', retry := True \<rparr>,
         JsError ''No refresh token available'')]
   \<and> cleared (tokens (run [NewCall (Some ''/api/tickets/''), Enter example_call 0,
         Respond (example_call \<lparr> authorization := Some ''Bearer old'' \<rparr>) (Failure (Some 401)),
         Resume 0]
       (initial (example_tokens \<lparr> persistedRefreshToken := None \<rparr>) ''http://h'')))"
proof -
  have p: "run [NewCall (Some ''/api/tickets/''), Enter example_call 50000, Resume 0]
       (initial (example_tokens \<lparr> persistedRefreshToken := None \<rparr>) ''http://h'')
     = \<lparr> tokens = example_tokens \<lparr> persistedRefreshToken := None \<rparr>,
         baseURL = ''http://h'', isRefreshing = False, refreshQueue = [], inflight = [],
         entering = [], sent = [], resolved = [],
         rejected = [(example_call, JsError ''No refresh token available'')],
         refreshPosts = [] \<rparr>"
    by (simp add: example_tokens_def example_call_def client_eval)
  have q: "run [NewCall (Some ''/api/tickets/''), Enter example_call 0,
         Respond (example_call \<lparr> authorization := Some ''Bearer old'' \<rparr>) (Failure (Some 401)),
         Resume 0]
       (initial (example_tokens \<lparr> persistedRefreshToken := None \<rparr>) ''http://h'')
     = \<lparr> tokens = \<lparr> accessToken = None, tokenExpiresAt = None, storageAvailable = True,
                    persistedRefreshToken = None \<rparr>,
         baseURL = ''http://h'', isRefreshing = False, refreshQueue = [], inflight = [],
         entering = [], sent = [], resolved = [],
         rejected = [(example_call \<lparr> authorization := Some ''Bearer old'', retry := True \<rparr>,
                      JsError ''No refresh token available'')],
         refreshPosts = [] \<rparr>"
    by (simp add: example_tokens_def example_call_def client_eval)
  show ?thesis
    by (simp only: p q) (simp add: example_tokens_def cleared_def getRefreshToken_def)
qed


section \<open>One refresh round\<close>

lemma terminal_responseRejected:
  "terminal err \<Longrightarrow> responseRejected call err s = reject call err s"
  by (cases err rule: terminal.cases) (auto simp: responseRejected_def)

lemma wakeAll_Nil [simp]: "wakeAll [] s = s"
  by (simp add: wakeAll_def)

lemma wakeAll_Cons [simp]: "wakeAll (x # xs) s = wakeAll xs (wake x s)"
  by (simp add: wakeAll_def)

lemma wakeAll_resolve:
  "token \<noteq> [] \<Longrightarrow>
   wakeAll (map (\<lambda>p. (p, ResolveWith token)) q) s =
     s \<lparr> entering := entering s @ map (resumedRetry token) (reactives q),
         sent := sent s @ map (resumedSend token) (proactives q) \<rparr>"
proof (induction q arbitrary: s)
  case Nil
  then show ?case by simp
next
  case (Cons w q)
  show ?case
  proof (cases w)
    case (Proactive c)
    with Cons show ?thesis by (simp add: send_def resumedSend_def)
  next
    case (Reactive c)
    with Cons show ?thesis by (simp add: retryRequest_def resumedRetry_def)
  qed
qed

lemma wakeAll_reject:
  "terminal err \<Longrightarrow>
   wakeAll (map (\<lambda>p. (p, RejectWith err)) q) s =
     s \<lparr> rejected := rejected s @ map (\<lambda>w. (waiter_config w, err)) q \<rparr>"
proof (induction q arbitrary: s)
  case Nil
  then show ?case by simp
next
  case (Cons w q)
  show ?case
  proof (cases w)
    case (Proactive c)
    with Cons show ?thesis by (simp add: terminal_responseRejected reject_def)
  next
    case (Reactive c)
    with Cons show ?thesis by (simp add: reject_def)
  qed
qed

text \<open>What resuming does when exactly one refresh is in flight and has settled.\<close>

lemma resume_success:
  assumes "inflight s = [(w, Settled (Inr token))]" and "token \<noteq> []"
  shows "resume 0 s =
     s \<lparr> isRefreshing := False, refreshQueue := [], inflight := [],
         entering := entering s @ map (resumedRetry token) (reactives (w # refreshQueue s)),
         sent := sent s @ map (resumedSend token) (proactives (w # refreshQueue s)) \<rparr>"
proof (cases w)
  case (Proactive c)
  with assms show ?thesis
    by (simp add: resume_def Let_def split_beta processQueue_state processQueue_settled
        truthy_str_def wakeAll_resolve send_def resumedSend_def)
next
  case (Reactive c)
  with assms show ?thesis
    by (simp add: resume_def Let_def split_beta processQueue_state processQueue_settled
        truthy_str_def wakeAll_resolve retryRequest_def resumedRetry_def)
qed

lemma resume_failure:
  assumes "inflight s = [(w, Settled (Inl err))]" and "terminal err"
  shows "resume 0 s =
     s \<lparr> tokens := (case w of Proactive c \<Rightarrow> tokens s | Reactive c \<Rightarrow> clearTokens (tokens s)),
         isRefreshing := False, refreshQueue := [], inflight := [],
         rejected := rejected s @ map (\<lambda>w. (waiter_config w, err)) (w # refreshQueue s) \<rparr>"
proof (cases w)
  case (Proactive c)
  with assms show ?thesis
    by (simp add: resume_def Let_def split_beta processQueue_state processQueue_settled
        wakeAll_reject terminal_responseRejected reject_def)
next
  case (Reactive c)
  with assms show ?thesis
    by (simp add: resume_def Let_def split_beta processQueue_state processQueue_settled
        wakeAll_reject reject_def)
qed





lemma proactives_mem: "c \<in> set (proactives q) \<longleftrightarrow> Proactive c \<in> set q"
  by (induction q rule: proactives.induct) auto


lemma terminal_refreshConfig: "terminal (AxiosError status (Some (refreshConfig s)))"
  by (simp add: refreshConfig_auth)


lemma refreshResponse_posted:
  "inflight s = [(w, Posted rt)] \<Longrightarrow>
   refreshResponse 0 r now s =
     (case r of
        RefreshOk token expiresIn \<Rightarrow>
          s \<lparr> tokens := setAccessToken token expiresIn now (tokens s),
              inflight := [(w, Settled (Inr token))] \<rparr>
      | RefreshFailed status \<Rightarrow>
          s \<lparr> tokens := clearTokens (tokens s),
              inflight := [(w, Settled (Inl (AxiosError status (Some (refreshConfig s)))))] \<rparr>)"
  by (simp add: refreshResponse_def split: refresh_response.splits)




lemma reachable_single_flight: "single_flight (run evs (initial ts base))"
  by (simp add: single_flight_run single_flight_initial)

lemma ret_send [simp]: "refresh_errors_terminal (send c s) = refresh_errors_terminal s"
  by (simp add: refresh_errors_terminal_def send_def)

lemma ret_reject [simp]: "refresh_errors_terminal (reject c e s) = refresh_errors_terminal s"
  by (simp add: refresh_errors_terminal_def reject_def)

lemma ret_retryRequest [simp]:
  "refresh_errors_terminal (retryRequest c s) = refresh_errors_terminal s"
  by (simp add: refresh_errors_terminal_def retryRequest_def)

lemma ret_fields [simp]:
  "refresh_errors_terminal (s \<lparr> tokens := t \<rparr>) = refresh_errors_terminal s"
  "refresh_errors_terminal (s \<lparr> entering := en \<rparr>) = refresh_errors_terminal s"
  "refresh_errors_terminal (s \<lparr> sent := se \<rparr>) = refresh_errors_terminal s"
  "refresh_errors_terminal (s \<lparr> resolved := re \<rparr>) = refresh_errors_terminal s"
  "refresh_errors_terminal (s \<lparr> isRefreshing := b \<rparr>) = refresh_errors_terminal s"
  "refresh_errors_terminal (s \<lparr> refreshQueue := q \<rparr>) = refresh_errors_terminal s"
  by (simp_all add: refresh_errors_terminal_def)



















text \<open>
  With an empty string as the new access token, \<open>processQueue(null, token)\<close> takes neither
  branch for the queued interceptors: the queue is emptied and the second call is neither
  continued nor rejected, while the first goes out without a token.
\<close>

lemma empty_token_drops_waiters:
  "run [NewCall (Some ''/api/tickets/''), NewCall (Some ''/api/tickets/7/''),
        Enter example_call 50000, Enter example_call2 50001,
        RefreshResponse 0 (RefreshOk '''' 3600) 60000, Resume 0]
     (initial example_tokens ''http://h'')
   = \<lparr> tokens = \<lparr> accessToken = Some '''', tokenExpiresAt = Some 3660000,
                  storageAvailable = True, persistedRefreshToken = Some ''r1'' \<rparr>,
       baseURL = ''http://h'', isRefreshing = False, refreshQueue = [], inflight = [],
       entering = [], sent = [example_call], resolved = [], rejected = [],
       refreshPosts = [''r1''] \<rparr>"
  by (simp add: example_eval client_eval)


section \<open>Proactive refresh\<close>

lemma expiring_within_threshold:
  "tokenExpiresAt ts = Some e \<Longrightarrow> now \<ge> e - 60 * 1000 \<Longrightarrow> isTokenExpiringSoon 60 now ts"
  by (simp add: isTokenExpiringSoon_def)

text \<open>The request interceptor of a call that finds the token expiring takes the
  single-flight branch.\<close>

lemma proactive_enter:
  assumes "cfg \<in> set (entering s)" and "\<not> isAuthEndpoint_request (cfg_url cfg)"
    and "accessToken (tokens s) = Some old" and "old \<noteq> []"
    and "tokenExpiresAt (tokens s) = Some e" and "now \<ge> e - 60 * 1000"
  shows "step (Enter cfg now) s
      = requireRefresh (Proactive cfg) (s \<lparr> entering := remove1 cfg (entering s) \<rparr>)"
proof -
  from assms have ex: "isTokenExpiringSoon 60 now (tokens s)"
    using expiring_within_threshold [of "tokens s" e now] by simp
  from assms have tr: "truthy_str (getAccessToken (tokens s))"
    by (simp add: truthy_str_def getAccessToken_def)
  from assms(1,2) ex tr show ?thesis
    by (simp add: requestInterceptor_cases)
qed

text \<open>One refresh in flight, answered and resumed from: what becomes of the requests.\<close>

lemma round_success:
  assumes "inflight s1 = [(w, Posted rt)]" and "token \<noteq> []"
  shows "refreshPosts (resume 0 (refreshResponse 0 (RefreshOk token ex) now s1)) = refreshPosts s1
     \<and> sent (resume 0 (refreshResponse 0 (RefreshOk token ex) now s1))
         = sent s1 @ map (resumedSend token) (proactives (w # refreshQueue s1))"
proof -
  let ?s2 = "s1 \<lparr> tokens := setAccessToken token ex now (tokens s1),
                  inflight := [(w, Settled (Inr token))] \<rparr>"
  have r2: "refreshResponse 0 (RefreshOk token ex) now s1 = ?s2"
    using refreshResponse_posted [OF assms(1), of "RefreshOk token ex" now] by simp
  have i2: "inflight ?s2 = [(w, Settled (Inr token))]" by simp
  show ?thesis
    by (simp only: r2 resume_success [OF i2 assms(2)]) simp
qed

lemma round_failure:
  assumes "inflight s1 = [(w, Posted rt)]"
  shows "refreshPosts (resume 0 (refreshResponse 0 (RefreshFailed st) now s1)) = refreshPosts s1
     \<and> sent (resume 0 (refreshResponse 0 (RefreshFailed st) now s1)) = sent s1
     \<and> rejected (resume 0 (refreshResponse 0 (RefreshFailed st) now s1))
         = rejected s1 @ map (\<lambda>w'. (waiter_config w', AxiosError st (Some (refreshConfig s1))))
                             (w # refreshQueue s1)"
proof -
  let ?e = "AxiosError st (Some (refreshConfig s1))"
  let ?s2 = "s1 \<lparr> tokens := clearTokens (tokens s1), inflight := [(w, Settled (Inl ?e))] \<rparr>"
  have r2: "refreshResponse 0 (RefreshFailed st) now s1 = ?s2"
    using refreshResponse_posted [OF assms, of "RefreshFailed st" now] by simp
  have i2: "inflight ?s2 = [(w, Settled (Inl ?e))]" by simp
  have t: "terminal ?e" by (rule terminal_refreshConfig)
  show ?thesis
    by (simp only: r2 resume_failure [OF i2 t]) simp
qed

lemma round_no_refresh_token:
  assumes "inflight s1 = [(w, Settled (Inl (JsError msg)))]"
  shows "refreshPosts (resume 0 s1) = refreshPosts s1
     \<and> sent (resume 0 s1) = sent s1
     \<and> rejected (resume 0 s1)
         = rejected s1 @ map (\<lambda>w'. (waiter_config w', JsError msg)) (w # refreshQueue s1)"
proof -
  have t: "terminal (JsError msg)" by simp
  show ?thesis
    by (simp only: resume_failure [OF assms t]) simp
qed

text \<open>
  Claim C6, as the spec states it, fails when no refresh token can be read. The access
  token expires in 30 seconds, the threshold is 60, and the call is not an auth call; its
  request interceptor starts a refresh, \<open>refreshAccessToken\<close> throws before it posts, and
  the interceptor rethrows: no refresh call occurs, no token is attached and the call is
  never sent.
\<close>

theorem proactive_refresh_counterexample:
  "example_call \<in> set (entering example_no_refresh_token)
   \<and> \<not> isAuthEndpoint_request (cfg_url example_call)
   \<and> accessToken (tokens example_no_refresh_token) = Some ''old''
   \<and> tokenExpiresAt (tokens example_no_refresh_token) = Some 100000
   \<and> (70000 :: int) \<ge> 100000 - 60 * 1000
   \<and> isTokenExpiringSoon 60 70000 (tokens example_no_refresh_token)
   \<and> run [Enter example_call 70000, Resume 0] example_no_refresh_token
      = \<lparr> tokens = example_tokens \<lparr> persistedRefreshToken := None \<rparr>, baseURL = ''http://h'',
          isRefreshing = False, refreshQueue = [], inflight = [], entering = [],
          sent = [], resolved = [],
          rejected = [(example_call, JsError ''No refresh token available'')],
          refreshPosts = [] \<rparr>"
  by (simp add: example_no_refresh_token_eq example_eval client_eval)

text \<open>
  Claim C6, amended. In every reachable state, take a pending non-auth call while the store
  holds a non-empty access token whose expiry \<open>e\<close> satisfies \<open>now \<ge> e - 60 s\<close>. Its request
  interceptor sends nothing yet.
  \<^item> If no refresh is running and a refresh token can be read, it starts a refresh, issuing
    exactly one refresh POST. When that refresh returns a non-empty token, the call goes out
    with the header \<open>Bearer\<close> followed by the refreshed token, and it is the only request
    sent; when the refresh fails, the call is rejected with the error of the refresh and is
    not sent. Either way no further refresh POST has been issued.
  \<^item> If no refresh is running and no refresh token can be read, no refresh POST is issued
    at all: the call is rejected and is not sent.
  \<^item> If a refresh is running, the interceptor queues itself and issues no POST. When the
    running refresh returns a non-empty token, the call goes out with the header \<open>Bearer\<close>
    followed by that token; when it fails, the call is rejected with the error of the refresh
    and nothing is sent. No further refresh POST has been issued.
\<close>

theorem proactive_refresh_before_attach:
  "s = run evs (initial ts base) \<Longrightarrow>
     (cfg \<in> set (entering s) \<and> \<not> isAuthEndpoint_request (cfg_url cfg)
      \<and> accessToken (tokens s) = Some old \<and> old \<noteq> []
      \<and> tokenExpiresAt (tokens s) = Some e \<and> now \<ge> e - 60 * 1000
      \<longrightarrow>
        sent (step (Enter cfg now) s) = sent s
        \<and> (\<not> isRefreshing s \<and> getRefreshToken (tokens s) = Some rt \<and> rt \<noteq> [] \<longrightarrow>
              inflight (step (Enter cfg now) s) = [(Proactive cfg, Posted rt)]
              \<and> refreshPosts (step (Enter cfg now) s) = refreshPosts s @ [rt]
              \<and> (token \<noteq> [] \<longrightarrow>
                    refreshPosts (run [Enter cfg now,
                        RefreshResponse 0 (RefreshOk token expiresIn) now', Resume 0] s)
                      = refreshPosts s @ [rt]
                    \<and> sent (run [Enter cfg now,
                        RefreshResponse 0 (RefreshOk token expiresIn) now', Resume 0] s)
                      = sent s @ [cfg \<lparr> authorization := Some (''Bearer '' @ token) \<rparr>])
              \<and> refreshPosts (run [Enter cfg now,
                    RefreshResponse 0 (RefreshFailed status) now', Resume 0] s)
                  = refreshPosts s @ [rt]
              \<and> sent (run [Enter cfg now,
                    RefreshResponse 0 (RefreshFailed status) now', Resume 0] s) = sent s
              \<and> rejected (run [Enter cfg now,
                    RefreshResponse 0 (RefreshFailed status) now', Resume 0] s)
                  = rejected s @ [(cfg, AxiosError status (Some (refreshConfig s)))])
        \<and> (\<not> isRefreshing s
             \<and> (getRefreshToken (tokens s) = None \<or> getRefreshToken (tokens s) = Some []) \<longrightarrow>
              refreshPosts (step (Enter cfg now) s) = refreshPosts s
              \<and> refreshPosts (run [Enter cfg now, Resume 0] s) = refreshPosts s
              \<and> sent (run [Enter cfg now, Resume 0] s) = sent s
              \<and> rejected (run [Enter cfg now, Resume 0] s)
                  = rejected s @ [(cfg, JsError ''No refresh token available'')])
        \<and> (isRefreshing s \<longrightarrow>
              inflight (step (Enter cfg now) s) = inflight s
              \<and> refreshQueue (step (Enter cfg now) s) = refreshQueue s @ [Proactive cfg]
              \<and> refreshPosts (step (Enter cfg now) s) = refreshPosts s
              \<and> (inflight s = [(leader, Posted rt')] \<longrightarrow>
                    (token \<noteq> [] \<longrightarrow>
                       refreshPosts (run [Enter cfg now,
                           RefreshResponse 0 (RefreshOk token expiresIn) now', Resume 0] s)
                         = refreshPosts s
                       \<and> cfg \<lparr> authorization := Some (''Bearer '' @ token) \<rparr>
                           \<in> set (sent (run [Enter cfg now,
                               RefreshResponse 0 (RefreshOk token expiresIn) now', Resume 0] s)))
                    \<and> refreshPosts (run [Enter cfg now,
                          RefreshResponse 0 (RefreshFailed status) now', Resume 0] s)
                        = refreshPosts s
                    \<and> sent (run [Enter cfg now,
                          RefreshResponse 0 (RefreshFailed status) now', Resume 0] s) = sent s
                    \<and> (cfg, AxiosError status (Some (refreshConfig s)))
                        \<in> set (rejected (run [Enter cfg now,
                            RefreshResponse 0 (RefreshFailed status) now', Resume 0] s)))))"
proof -
  assume reach: "s = run evs (initial ts base)"
  then have sf: "single_flight s" by (simp add: reachable_single_flight)
  define s1 where "s1 = step (Enter cfg now) s"
  define ok where "ok = resume 0 (refreshResponse 0 (RefreshOk token expiresIn) now' s1)"
  define ko where "ko = resume 0 (refreshResponse 0 (RefreshFailed status) now' s1)"
  define no where "no = resume 0 s1"
  have fin_ok: "run [Enter cfg now, RefreshResponse 0 (RefreshOk token expiresIn) now', Resume 0] s
      = ok"
    by (simp add: s1_def ok_def)
  have fin_ko: "run [Enter cfg now, RefreshResponse 0 (RefreshFailed status) now', Resume 0] s
      = ko"
    by (simp add: s1_def ko_def)
  have fin_no: "run [Enter cfg now, Resume 0] s = no"
    by (simp add: s1_def no_def)
  have goal: "cfg \<in> set (entering s) \<and> \<not> isAuthEndpoint_request (cfg_url cfg)
      \<and> accessToken (tokens s) = Some old \<and> old \<noteq> []
      \<and> tokenExpiresAt (tokens s) = Some e \<and> now \<ge> e - 60 * 1000
      \<longrightarrow>
        sent s1 = sent s
        \<and> (\<not> isRefreshing s \<and> getRefreshToken (tokens s) = Some rt \<and> rt \<noteq> [] \<longrightarrow>
              inflight s1 = [(Proactive cfg, Posted rt)]
              \<and> refreshPosts s1 = refreshPosts s @ [rt]
              \<and> (token \<noteq> [] \<longrightarrow>
                    refreshPosts ok = refreshPosts s @ [rt]
                    \<and> sent ok = sent s @ [cfg \<lparr> authorization := Some (''Bearer '' @ token) \<rparr>])
              \<and> refreshPosts ko = refreshPosts s @ [rt]
              \<and> sent ko = sent s
              \<and> rejected ko = rejected s @ [(cfg, AxiosError status (Some (refreshConfig s)))])
        \<and> (\<not> isRefreshing s
             \<and> (getRefreshToken (tokens s) = None \<or> getRefreshToken (tokens s) = Some []) \<longrightarrow>
              refreshPosts s1 = refreshPosts s
              \<and> refreshPosts no = refreshPosts s
              \<and> sent no = sent s
              \<and> rejected no = rejected s @ [(cfg, JsError ''No refresh token available'')])
        \<and> (isRefreshing s \<longrightarrow>
              inflight s1 = inflight s
              \<and> refreshQueue s1 = refreshQueue s @ [Proactive cfg]
              \<and> refreshPosts s1 = refreshPosts s
              \<and> (inflight s = [(leader, Posted rt')] \<longrightarrow>
                    (token \<noteq> [] \<longrightarrow>
                       refreshPosts ok = refreshPosts s
                       \<and> cfg \<lparr> authorization := Some (''Bearer '' @ token) \<rparr> \<in> set (sent ok))
                    \<and> refreshPosts ko = refreshPosts s
                    \<and> sent ko = sent s
                    \<and> (cfg, AxiosError status (Some (refreshConfig s))) \<in> set (rejected ko)))"
  proof
    assume h: "cfg \<in> set (entering s) \<and> \<not> isAuthEndpoint_request (cfg_url cfg)
      \<and> accessToken (tokens s) = Some old \<and> old \<noteq> []
      \<and> tokenExpiresAt (tokens s) = Some e \<and> now \<ge> e - 60 * 1000"
    then have st: "s1
        = requireRefresh (Proactive cfg) (s \<lparr> entering := remove1 cfg (entering s) \<rparr>)"
      using proactive_enter [of cfg s old e now] by (simp add: s1_def)
    have a: "sent s1 = sent s" and rj: "rejected s1 = rejected s"
      and bu: "refreshConfig s1 = refreshConfig s"
      by (simp_all add: st requireRefresh_def startRefresh_def refreshConfig_def Let_def)
    have b: "\<not> isRefreshing s \<and> getRefreshToken (tokens s) = Some rt \<and> rt \<noteq> [] \<longrightarrow>
              inflight s1 = [(Proactive cfg, Posted rt)]
              \<and> refreshPosts s1 = refreshPosts s @ [rt]
              \<and> (token \<noteq> [] \<longrightarrow>
                    refreshPosts ok = refreshPosts s @ [rt]
                    \<and> sent ok = sent s @ [cfg \<lparr> authorization := Some (''Bearer '' @ token) \<rparr>])
              \<and> refreshPosts ko = refreshPosts s @ [rt]
              \<and> sent ko = sent s
              \<and> rejected ko = rejected s @ [(cfg, AxiosError status (Some (refreshConfig s)))]"
    proof
      assume idle: "\<not> isRefreshing s \<and> getRefreshToken (tokens s) = Some rt \<and> rt \<noteq> []"
      with sf have e0: "inflight s = []" and q0: "refreshQueue s = []"
        by (simp_all add: single_flight_def)
      from idle have rtt: "truthy_str (getRefreshToken (tokens s))"
        and rte: "the (getRefreshToken (tokens s)) = rt"
        by (simp_all add: truthy_str_def)
      from idle e0 q0 rtt rte have i1: "inflight s1 = [(Proactive cfg, Posted rt)]"
        and p1: "refreshPosts s1 = refreshPosts s @ [rt]"
        and q1: "refreshQueue s1 = []"
        by (simp_all add: st requireRefresh_def startRefresh_def Let_def)
      have su: "token \<noteq> [] \<longrightarrow>
                    refreshPosts ok = refreshPosts s @ [rt]
                    \<and> sent ok = sent s @ [cfg \<lparr> authorization := Some (''Bearer '' @ token) \<rparr>]"
      proof
        assume tk: "token \<noteq> []"
        from round_success [OF i1 tk, of expiresIn now']
        show "refreshPosts ok = refreshPosts s @ [rt]
            \<and> sent ok = sent s @ [cfg \<lparr> authorization := Some (''Bearer '' @ token) \<rparr>]"
          by (simp add: ok_def p1 q1 a resumedSend_def bearer_def)
      qed
      from round_failure [OF i1, of status now']
      have fa: "refreshPosts ko = refreshPosts s @ [rt] \<and> sent ko = sent s
          \<and> rejected ko = rejected s @ [(cfg, AxiosError status (Some (refreshConfig s)))]"
        by (simp add: ko_def p1 q1 a rj bu)
      from i1 p1 su fa show "inflight s1 = [(Proactive cfg, Posted rt)]
              \<and> refreshPosts s1 = refreshPosts s @ [rt]
              \<and> (token \<noteq> [] \<longrightarrow>
                    refreshPosts ok = refreshPosts s @ [rt]
                    \<and> sent ok = sent s @ [cfg \<lparr> authorization := Some (''Bearer '' @ token) \<rparr>])
              \<and> refreshPosts ko = refreshPosts s @ [rt]
              \<and> sent ko = sent s
              \<and> rejected ko = rejected s @ [(cfg, AxiosError status (Some (refreshConfig s)))]"
        by blast
    qed
    have n: "\<not> isRefreshing s
             \<and> (getRefreshToken (tokens s) = None \<or> getRefreshToken (tokens s) = Some []) \<longrightarrow>
              refreshPosts s1 = refreshPosts s
              \<and> refreshPosts no = refreshPosts s
              \<and> sent no = sent s
              \<and> rejected no = rejected s @ [(cfg, JsError ''No refresh token available'')]"
    proof
      assume idle: "\<not> isRefreshing s
             \<and> (getRefreshToken (tokens s) = None \<or> getRefreshToken (tokens s) = Some [])"
      with sf have e0: "inflight s = []" and q0: "refreshQueue s = []"
        by (simp_all add: single_flight_def)
      from idle have rtt: "\<not> truthy_str (getRefreshToken (tokens s))"
        by (auto simp: truthy_str_def)
      from idle e0 q0 rtt
      have i1: "inflight s1
          = [(Proactive cfg, Settled (Inl (JsError ''No refresh token available'')))]"
        and p1: "refreshPosts s1 = refreshPosts s"
        and q1: "refreshQueue s1 = []"
        by (simp_all add: st requireRefresh_def startRefresh_def Let_def)
      from round_no_refresh_token [OF i1] p1
      show "refreshPosts s1 = refreshPosts s
              \<and> refreshPosts no = refreshPosts s
              \<and> sent no = sent s
              \<and> rejected no = rejected s @ [(cfg, JsError ''No refresh token available'')]"
        by (simp add: no_def q1 a rj)
    qed
    have c: "isRefreshing s \<longrightarrow>
              inflight s1 = inflight s
              \<and> refreshQueue s1 = refreshQueue s @ [Proactive cfg]
              \<and> refreshPosts s1 = refreshPosts s
              \<and> (inflight s = [(leader, Posted rt')] \<longrightarrow>
                    (token \<noteq> [] \<longrightarrow>
                       refreshPosts ok = refreshPosts s
                       \<and> cfg \<lparr> authorization := Some (''Bearer '' @ token) \<rparr> \<in> set (sent ok))
                    \<and> refreshPosts ko = refreshPosts s
                    \<and> sent ko = sent s
                    \<and> (cfg, AxiosError status (Some (refreshConfig s))) \<in> set (rejected ko))"
    proof
      assume busy: "isRefreshing s"
      then have i1: "inflight s1 = inflight s"
        and q1: "refreshQueue s1 = refreshQueue s @ [Proactive cfg]"
        and p1: "refreshPosts s1 = refreshPosts s"
        by (simp_all add: st requireRefresh_def)
      have d: "inflight s = [(leader, Posted rt')] \<longrightarrow>
                    (token \<noteq> [] \<longrightarrow>
                       refreshPosts ok = refreshPosts s
                       \<and> cfg \<lparr> authorization := Some (''Bearer '' @ token) \<rparr> \<in> set (sent ok))
                    \<and> refreshPosts ko = refreshPosts s
                    \<and> sent ko = sent s
                    \<and> (cfg, AxiosError status (Some (refreshConfig s))) \<in> set (rejected ko)"
      proof
        assume l: "inflight s = [(leader, Posted rt')]"
        with i1 have i1': "inflight s1 = [(leader, Posted rt')]" by simp
        have pm: "cfg \<in> set (proactives (leader # refreshQueue s @ [Proactive cfg]))"
          by (simp add: proactives_mem)
        have su: "token \<noteq> [] \<longrightarrow>
                       refreshPosts ok = refreshPosts s
                       \<and> cfg \<lparr> authorization := Some (''Bearer '' @ token) \<rparr> \<in> set (sent ok)"
        proof
          assume tk: "token \<noteq> []"
          from round_success [OF i1' tk, of expiresIn now']
          have "refreshPosts ok = refreshPosts s"
            and "sent ok = sent s
                  @ map (resumedSend token) (proactives (leader # refreshQueue s @ [Proactive cfg]))"
            by (simp_all add: ok_def p1 q1 a)
          moreover have "cfg \<lparr> authorization := Some (''Bearer '' @ token) \<rparr> = resumedSend token cfg"
            by (simp add: resumedSend_def bearer_def)
          ultimately show "refreshPosts ok = refreshPosts s
              \<and> cfg \<lparr> authorization := Some (''Bearer '' @ token) \<rparr> \<in> set (sent ok)"
            using pm by simp
        qed
        from round_failure [OF i1', of status now']
        have fa: "refreshPosts ko = refreshPosts s \<and> sent ko = sent s
            \<and> (cfg, AxiosError status (Some (refreshConfig s))) \<in> set (rejected ko)"
          by (simp add: ko_def p1 q1 a rj bu)
        from su fa show "(token \<noteq> [] \<longrightarrow>
                       refreshPosts ok = refreshPosts s
                       \<and> cfg \<lparr> authorization := Some (''Bearer '' @ token) \<rparr> \<in> set (sent ok))
                    \<and> refreshPosts ko = refreshPosts s
                    \<and> sent ko = sent s
                    \<and> (cfg, AxiosError status (Some (refreshConfig s))) \<in> set (rejected ko)"
          by blast
      qed
      from i1 q1 p1 d show "inflight s1 = inflight s
              \<and> refreshQueue s1 = refreshQueue s @ [Proactive cfg]
              \<and> refreshPosts s1 = refreshPosts s
              \<and> (inflight s = [(leader, Posted rt')] \<longrightarrow>
                    (token \<noteq> [] \<longrightarrow>
                       refreshPosts ok = refreshPosts s
                       \<and> cfg \<lparr> authorization := Some (''Bearer '' @ token) \<rparr> \<in> set (sent ok))
                    \<and> refreshPosts ko = refreshPosts s
                    \<and> sent ko = sent s
                    \<and> (cfg, AxiosError status (Some (refreshConfig s))) \<in> set (rejected ko))"
        by blast
    qed
    from a b n c show "sent s1 = sent s
        \<and> (\<not> isRefreshing s \<and> getRefreshToken (tokens s) = Some rt \<and> rt \<noteq> [] \<longrightarrow>
              inflight s1 = [(Proactive cfg, Posted rt)]
              \<and> refreshPosts s1 = refreshPosts s @ [rt]
              \<and> (token \<noteq> [] \<longrightarrow>
                    refreshPosts ok = refreshPosts s @ [rt]
                    \<and> sent ok = sent s @ [cfg \<lparr> authorization := Some (''Bearer '' @ token) \<rparr>])
              \<and> refreshPosts ko = refreshPosts s @ [rt]
              \<and> sent ko = sent s
              \<and> rejected ko = rejected s @ [(cfg, AxiosError status (Some (refreshConfig s)))])
        \<and> (\<not> isRefreshing s
             \<and> (getRefreshToken (tokens s) = None \<or> getRefreshToken (tokens s) = Some []) \<longrightarrow>
              refreshPosts s1 = refreshPosts s
              \<and> refreshPosts no = refreshPosts s
              \<and> sent no = sent s
              \<and> rejected no = rejected s @ [(cfg, JsError ''No refresh token available'')])
        \<and> (isRefreshing s \<longrightarrow>
              inflight s1 = inflight s
              \<and> refreshQueue s1 = refreshQueue s @ [Proactive cfg]
              \<and> refreshPosts s1 = refreshPosts s
              \<and> (inflight s = [(leader, Posted rt')] \<longrightarrow>
                    (token \<noteq> [] \<longrightarrow>
                       refreshPosts ok = refreshPosts s
                       \<and> cfg \<lparr> authorization := Some (''Bearer '' @ token) \<rparr> \<in> set (sent ok))
                    \<and> refreshPosts ko = refreshPosts s
                    \<and> sent ko = sent s
                    \<and> (cfg, AxiosError status (Some (refreshConfig s))) \<in> set (rejected ko)))"
      by (simp only: simp_thms)
  qed
  show ?thesis
    using goal by (simp only: fin_ok fin_ko fin_no s1_def [symmetric])
qed

text \<open>The scenario of the spec: the token expires in 30 seconds, the threshold is 60. The
  refresh succeeds or fails with a 401; a second call arrives while that refresh is out;
  and the same call with no refresh token in the store.\<close>

theorem proactive_refresh_before_attach_witness:
  "example_call \<in> set (entering example_pending)
   \<and> \<not> isAuthEndpoint_request (cfg_url example_call)
   \<and> accessToken (tokens example_pending) = Some ''old''
   \<and> tokenExpiresAt (tokens example_pending) = Some 100000
   \<and> (70000 :: int) \<ge> 100000 - 60 * 1000
   \<and> getRefreshToken (tokens example_pending) = Some ''r1''
   \<and> \<not> isRefreshing example_pending
   \<and> sent (step (Enter example_call 70000) example_pending) = []
   \<and> refreshPosts (run [Enter example_call 70000, RefreshResponse 0 (RefreshOk ''new'' 3600) 71000,
        Resume 0] example_pending) = [''r1'']
   \<and> sent (run [Enter example_call 70000, RefreshResponse 0 (RefreshOk ''new'' 3600) 71000,
        Resume 0] example_pending)
      = [\<lparr> cfg_url = Some ''/api/tickets/'', authorization = Some ''Bearer new'',
           retry = False, resends = 0 \<rparr>]
   \<and> refreshPosts (run [Enter example_call 70000, RefreshResponse 0 (RefreshFailed (Some 401)) 71000,
        Resume 0] example_pending) = [''r1'']
   \<and> sent (run [Enter example_call 70000, RefreshResponse 0 (RefreshFailed (Some 401)) 71000,
        Resume 0] example_pending) = []
   \<and> rejected (run [Enter example_call 70000, RefreshResponse 0 (RefreshFailed (Some 401)) 71000,
        Resume 0] example_pending)
      = [(example_call, AxiosError (Some 401) (Some (refreshConfig example_pending)))]
   \<and> getRefreshToken (tokens example_no_refresh_token) = None
   \<and> \<not> isRefreshing example_no_refresh_token
   \<and> refreshPosts (run [Enter example_call 70000, Resume 0] example_no_refresh_token) = []
   \<and> sent (run [Enter example_call 70000, Resume 0] example_no_refresh_token) = []
   \<and> rejected (run [Enter example_call 70000, Resume 0] example_no_refresh_token)
      = [(example_call, JsError ''No refresh token available'')]
   \<and> isRefreshing example_refreshing
   \<and> inflight example_refreshing = [(Proactive example_call, Posted ''r1'')]
   \<and> refreshPosts (run [Enter example_call2 70001, RefreshResponse 0 (RefreshOk ''new'' 3600) 71000,
        Resume 0] example_refreshing) = [''r1'']
   \<and> \<lparr> cfg_url = Some ''/api/tickets/7/'', authorization = Some ''Bearer new'',
        retry = False, resends = 0 \<rparr>
       \<in> set (sent (run [Enter example_call2 70001,
           RefreshResponse 0 (RefreshOk ''new'' 3600) 71000, Resume 0] example_refreshing))
   \<and> sent (run [Enter example_call2 70001, RefreshResponse 0 (RefreshFailed (Some 401)) 71000,
        Resume 0] example_refreshing) = []
   \<and> (example_call2, AxiosError (Some 401) (Some (refreshConfig example_refreshing)))
       \<in> set (rejected (run [Enter example_call2 70001,
           RefreshResponse 0 (RefreshFailed (Some 401)) 71000, Resume 0] example_refreshing))"
proof -
  have h1: "example_call \<in> set (entering example_pending)
      \<and> \<not> isAuthEndpoint_request (cfg_url example_call)
      \<and> accessToken (tokens example_pending) = Some ''old'' \<and> ''old'' \<noteq> []
      \<and> tokenExpiresAt (tokens example_pending) = Some 100000 \<and> (70000 :: int) \<ge> 100000 - 60 * 1000"
    by (simp add: example_pending_eq example_eval newConfig_def isAuthEndpoint_request_def)
  have g1: "\<not> isRefreshing example_pending \<and> getRefreshToken (tokens example_pending) = Some ''r1''
      \<and> ''r1'' \<noteq> []" and tk: "''new'' \<noteq> []"
    by (simp_all add: example_pending_eq example_eval getRefreshToken_def)
  have f1: "sent example_pending = []" "refreshPosts example_pending = []"
    "rejected example_pending = []"
    by (simp_all add: example_pending_eq)
  have h0: "example_call \<in> set (entering example_no_refresh_token)
      \<and> \<not> isAuthEndpoint_request (cfg_url example_call)
      \<and> accessToken (tokens example_no_refresh_token) = Some ''old'' \<and> ''old'' \<noteq> []
      \<and> tokenExpiresAt (tokens example_no_refresh_token) = Some 100000
      \<and> (70000 :: int) \<ge> 100000 - 60 * 1000"
    by (simp add: example_no_refresh_token_eq example_eval newConfig_def
        isAuthEndpoint_request_def)
  have g0: "\<not> isRefreshing example_no_refresh_token
      \<and> (getRefreshToken (tokens example_no_refresh_token) = None
          \<or> getRefreshToken (tokens example_no_refresh_token) = Some [])"
    and n0: "getRefreshToken (tokens example_no_refresh_token) = None"
    by (simp_all add: example_no_refresh_token_eq example_eval getRefreshToken_def)
  have f0: "sent example_no_refresh_token = []" "refreshPosts example_no_refresh_token = []"
    "rejected example_no_refresh_token = []"
    by (simp_all add: example_no_refresh_token_eq)
  have h2: "example_call2 \<in> set (entering example_refreshing)
      \<and> \<not> isAuthEndpoint_request (cfg_url example_call2)
      \<and> accessToken (tokens example_refreshing) = Some ''old'' \<and> ''old'' \<noteq> []
      \<and> tokenExpiresAt (tokens example_refreshing) = Some 100000 \<and> (70001 :: int) \<ge> 100000 - 60 * 1000"
    by (simp add: example_refreshing_eq example_eval newConfig_def isAuthEndpoint_request_def)
  have i2: "isRefreshing example_refreshing"
    and l2: "inflight example_refreshing = [(Proactive example_call, Posted ''r1'')]"
    by (simp_all add: example_refreshing_eq)
  have f2: "sent example_refreshing = []" "refreshPosts example_refreshing = [''r1'']"
    by (simp_all add: example_refreshing_eq)
  have c1: "example_call \<lparr> authorization := Some (''Bearer '' @ ''new'') \<rparr>
      = \<lparr> cfg_url = Some ''/api/tickets/'', authorization = Some ''Bearer new'',
          retry = False, resends = 0 \<rparr>"
    and c2: "example_call2 \<lparr> authorization := Some (''Bearer '' @ ''new'') \<rparr>
      = \<lparr> cfg_url = Some ''/api/tickets/7/'', authorization = Some ''Bearer new'',
          retry = False, resends = 0 \<rparr>"
    by (simp_all add: example_eval newConfig_def)
  from h1 g1 tk
    proactive_refresh_before_attach [OF example_pending_def, where cfg = example_call
      and old = "''old''" and e = 100000 and now = 70000 and rt = "''r1''" and token = "''new''"
      and expiresIn = 3600 and now' = 71000 and status = "Some 401"
      and leader = "Proactive example_call" and rt' = "''r1''"]
  have t1: "sent (step (Enter example_call 70000) example_pending) = sent example_pending
     \<and> refreshPosts (run [Enter example_call 70000, RefreshResponse 0 (RefreshOk ''new'' 3600) 71000,
          Resume 0] example_pending) = refreshPosts example_pending @ [''r1'']
     \<and> sent (run [Enter example_call 70000, RefreshResponse 0 (RefreshOk ''new'' 3600) 71000,
          Resume 0] example_pending)
        = sent example_pending @ [example_call \<lparr> authorization := Some (''Bearer '' @ ''new'') \<rparr>]
     \<and> refreshPosts (run [Enter example_call 70000,
          RefreshResponse 0 (RefreshFailed (Some 401)) 71000, Resume 0] example_pending)
        = refreshPosts example_pending @ [''r1'']
     \<and> sent (run [Enter example_call 70000,
          RefreshResponse 0 (RefreshFailed (Some 401)) 71000, Resume 0] example_pending)
        = sent example_pending
     \<and> rejected (run [Enter example_call 70000,
          RefreshResponse 0 (RefreshFailed (Some 401)) 71000, Resume 0] example_pending)
        = rejected example_pending
          @ [(example_call, AxiosError (Some 401) (Some (refreshConfig example_pending)))]"
    by blast
  from h0 g0
    proactive_refresh_before_attach [OF example_no_refresh_token_def, where cfg = example_call
      and old = "''old''" and e = 100000 and now = 70000 and rt = "''r1''" and token = "''new''"
      and expiresIn = 3600 and now' = 71000 and status = "Some 401"
      and leader = "Proactive example_call" and rt' = "''r1''"]
  have t0: "refreshPosts (run [Enter example_call 70000, Resume 0] example_no_refresh_token)
        = refreshPosts example_no_refresh_token
     \<and> sent (run [Enter example_call 70000, Resume 0] example_no_refresh_token)
        = sent example_no_refresh_token
     \<and> rejected (run [Enter example_call 70000, Resume 0] example_no_refresh_token)
        = rejected example_no_refresh_token
          @ [(example_call, JsError ''No refresh token available'')]"
    by blast
  from h2 i2 l2 tk
    proactive_refresh_before_attach [OF example_refreshing_def, where cfg = example_call2
      and old = "''old''" and e = 100000 and now = 70001 and rt = "''r1''" and token = "''new''"
      and expiresIn = 3600 and now' = 71000 and status = "Some 401"
      and leader = "Proactive example_call" and rt' = "''r1''"]
  have t2: "refreshPosts (run [Enter example_call2 70001, RefreshResponse 0 (RefreshOk ''new'' 3600) 71000,
          Resume 0] example_refreshing) = refreshPosts example_refreshing
     \<and> example_call2 \<lparr> authorization := Some (''Bearer '' @ ''new'') \<rparr>
         \<in> set (sent (run [Enter example_call2 70001,
             RefreshResponse 0 (RefreshOk ''new'' 3600) 71000, Resume 0] example_refreshing))
     \<and> sent (run [Enter example_call2 70001,
          RefreshResponse 0 (RefreshFailed (Some 401)) 71000, Resume 0] example_refreshing)
        = sent example_refreshing
     \<and> (example_call2, AxiosError (Some 401) (Some (refreshConfig example_refreshing)))
         \<in> set (rejected (run [Enter example_call2 70001,
             RefreshResponse 0 (RefreshFailed (Some 401)) 71000, Resume 0] example_refreshing))"
    by blast
  from h1 g1 n0 g0 i2 l2 t1 [unfolded f1 c1] t0 [unfolded f0] t2 [unfolded f2 c2]
  show ?thesis by simp
qed

end
